theory Spec2Isabelle
  imports Complex_Main "HOL-Library.List_Lexorder" "HOL-Library.Char_ord" "HOL-Library.Multiset"
    "HOL-Library.Log_Nat"
begin

section \<open>Values shared by the attendance tracker and its screens\<close>

text \<open>
  A JavaScript \<^verbatim>\<open>Date\<close> is modelled by its time value: the number of milliseconds
  since the epoch, an integer. Every such \<^verbatim>\<open>Date\<close> is a valid one (the dates that the
  local tracker reads from its storage may be invalid and have a type of their own),
  and the time values are far below \<open>2 ^ 53\<close>, where the arithmetic of JavaScript
  numbers on integers is exact.
\<close>

type_synonym Date = int

subsection \<open>Numbers in template literals\<close>

text \<open>
  \<^verbatim>\<open>`${hours}h ${minutes}m`\<close> converts an integral number to its decimal digits, with a
  leading minus sign when it is negative.
\<close>

definition digit_char :: "nat \<Rightarrow> char" where
  "digit_char d = ''0123456789'' ! d"

fun show_nat :: "nat \<Rightarrow> string" where
  "show_nat n = (if n < 10 then [digit_char n] else show_nat (n div 10) @ [digit_char (n mod 10)])"

declare show_nat.simps [simp del]

definition show_int :: "int \<Rightarrow> string" where
  "show_int i = (if i < 0 then CHR ''-'' # show_nat (nat (- i)) else show_nat (nat i))"

subsection \<open>Integer arithmetic of JavaScript and of date-fns\<close>

text \<open>
  \<^verbatim>\<open>Math.floor(a / b)\<close> on integers with a positive divisor is the floor of the
  quotient, which is \<open>div\<close> on \<open>int\<close>. The remainder operator \<^verbatim>\<open>%\<close> takes the sign
  of the dividend: it is the remainder of the division that truncates towards zero.
\<close>

definition trunc_div :: "int \<Rightarrow> int \<Rightarrow> int" where
  "trunc_div a b = sgn a * sgn b * (\<bar>a\<bar> div \<bar>b\<bar>)"

definition js_rem :: "int \<Rightarrow> int \<Rightarrow> int" where
  "js_rem a b = a - b * trunc_div a b"

text \<open>
  The two functions of the date-fns library that the report uses. The library is not
  part of the repository; its documented behaviour is that the difference in
  milliseconds is divided by the length of the unit and the quotient is truncated
  towards zero.
\<close>

definition differenceInHours :: "Date \<Rightarrow> Date \<Rightarrow> int" where
  "differenceInHours dateLeft dateRight = trunc_div (dateLeft - dateRight) 3600000"

definition differenceInMinutes :: "Date \<Rightarrow> Date \<Rightarrow> int" where
  "differenceInMinutes dateLeft dateRight = trunc_div (dateLeft - dateRight) 60000"

subsection \<open>The two duration computations\<close>

text \<open>
  The report screen (\<^verbatim>\<open>generateReport\<close>): the duration starts as \<^verbatim>\<open>"In progress"\<close> and
  is replaced when the record has a check-out time. A \<^verbatim>\<open>Date\<close> object is always
  truthy, so the test is on presence only.
\<close>

definition report_duration :: "Date \<Rightarrow> Date option \<Rightarrow> string" where
  "report_duration check_in check_out =
     (case check_out of
        None \<Rightarrow> ''In progress''
      | Some out \<Rightarrow>
          (let hours = differenceInHours out check_in;
               minutes = js_rem (differenceInMinutes out check_in) 60
           in show_int hours @ ''h '' @ show_int minutes @ ''m''))"

text \<open>The dashboard of the local-storage variant (\<^verbatim>\<open>calculateDuration\<close>).\<close>

definition calculateDuration :: "Date \<Rightarrow> Date option \<Rightarrow> string" where
  "calculateDuration checkIn checkOut =
     (case checkOut of
        None \<Rightarrow> ''In progress''
      | Some out \<Rightarrow>
          (let diff = out - checkIn;
               hours = diff div (1000 * 60 * 60);
               minutes = js_rem diff (1000 * 60 * 60) div (1000 * 60)
           in show_int hours @ ''h '' @ show_int minutes @ ''m''))"

subsection \<open>Calendar-day keys\<close>

text \<open>
  \<^verbatim>\<open>date.toISOString().split('T')[0]\<close> is the calendar day of the time value in UTC,
  written \<^verbatim>\<open>YYYY-MM-DD\<close>; years outside 0..9999 are written with a sign and six
  digits. The day number is the floor of the time value divided by the length of a
  day, and the civil date of a day number follows the proleptic Gregorian calendar.
\<close>

definition pad :: "nat \<Rightarrow> nat \<Rightarrow> string" where
  "pad width n = replicate (width - length (show_nat n)) CHR ''0'' @ show_nat n"

definition civil_from_days :: "int \<Rightarrow> int \<times> int \<times> int" where
  "civil_from_days z =
     (let z1 = z + 719468;
          era = z1 div 146097;
          doe = z1 - era * 146097;
          yoe = (doe - doe div 1460 + doe div 36524 - doe div 146096) div 365;
          doy = doe - (365 * yoe + yoe div 4 - yoe div 100);
          mp = (5 * doy + 2) div 153;
          d = doy - (153 * mp + 2) div 5 + 1;
          m = (if mp < 10 then mp + 3 else mp - 9);
          y = yoe + era * 400 + (if m \<le> 2 then 1 else 0)
      in (y, m, d))"

definition iso_year :: "int \<Rightarrow> string" where
  "iso_year y =
     (if 0 \<le> y \<and> y \<le> 9999 then pad 4 (nat y)
      else (if y < 0 then ''-'' else ''+'') @ pad 6 (nat \<bar>y\<bar>))"

definition toISODate :: "Date \<Rightarrow> string" where
  "toISODate t =
     (case civil_from_days (t div 86400000) of
        (y, m, d) \<Rightarrow> iso_year y @ ''-'' @ pad 2 (nat m) @ ''-'' @ pad 2 (nat d))"

section \<open>The attendance tracker\<close>

subsection \<open>State, records and observable effects\<close>

text \<open>
  \<^verbatim>\<open>User\<close> and \<^verbatim>\<open>AttendanceRecord\<close> as the two contexts declare them. The field
  \<^verbatim>\<open>id\<close> of a user is \<open>uid\<close> and the field \<^verbatim>\<open>id\<close> of a record is \<open>record_id\<close>. A
  row that the remote table returns carries its timestamps as ISO text; the model
  holds the time value that the text denotes, so that \<^verbatim>\<open>new Date(text)\<close> is the
  identity, and \<^verbatim>\<open>null\<close> is \<open>None\<close>. The variant of the tracker that keeps its records
  in local storage has types of its own, further down.
\<close>

record User =
  uid :: string
  email :: string
  name :: string

record AttendanceRecord =
  record_id :: string
  user_id :: string
  check_in_time :: Date
  check_out_time :: "Date option"
  date :: string

text \<open>
  What a render of \<^verbatim>\<open>AttendanceProvider\<close> sees: the identity that \<^verbatim>\<open>useAuth\<close> supplies
  and the three state cells.
\<close>

record Tracker =
  user :: "User option"
  todayRecord :: "AttendanceRecord option"
  recentRecords :: "AttendanceRecord list"
  isLoading :: bool

definition initial_tracker :: Tracker where
  "initial_tracker = \<lparr>user = None, todayRecord = None, recentRecords = [], isLoading = False\<rparr>"

text \<open>
  Everything a call does besides changing the state is recorded, in order: the
  notices shown to the user (variant, when one is given, and title; the description,
  a locale-formatted time, is left out), the lines written with \<^verbatim>\<open>console.error\<close>,
  and the requests sent to the remote table.
\<close>

datatype toast_variant = Default | Destructive

datatype effect =
    Toast "toast_variant option" string
  | ConsoleError string
  | Insert string Date string
  | Update string Date
  | SelectToday string string
  | SelectRecent string string
  | SelectRange string string string

text \<open>
  The answer of the remote table: the pair \<^verbatim>\<open>{ data, error }\<close>. The model keeps all
  four combinations and follows the order in which the source reads them.
\<close>

record 'a Response =
  data :: "'a option"
  error :: "string option"

definition isCheckedIn :: "Tracker \<Rightarrow> bool" where
  "isCheckedIn s =
     (case todayRecord s of None \<Rightarrow> False | Some r \<Rightarrow> check_out_time r = None)"

subsection \<open>Check-in and check-out against the remote table\<close>

text \<open>
  \<^verbatim>\<open>checkIn\<close> runs up to its \<^verbatim>\<open>await\<close> (\<open>checkIn_begin\<close>) and continues when the
  answer arrives (\<open>checkIn_resume\<close>). The continuation is a closure of the render in
  which the call started: it still holds the \<^verbatim>\<open>recentRecords\<close> of that render, which
  \<open>checkIn_begin\<close> returns when the call is suspended. A call that nothing interleaves
  with is \<open>checkIn\<close>.
\<close>

definition checkIn_begin ::
  "Date \<Rightarrow> Tracker \<Rightarrow> Tracker \<times> effect list \<times> AttendanceRecord list option" where
  "checkIn_begin now s =
     (case user s of
        None \<Rightarrow> (s, [], None)
      | Some u \<Rightarrow>
          (case todayRecord s of
             Some r \<Rightarrow>
               (s\<lparr>isLoading := False\<rparr>, [Toast (Some Default) ''Already checked in''], None)
           | None \<Rightarrow>
               (s\<lparr>isLoading := True\<rparr>, [Insert (uid u) now (toISODate now)],
                Some (recentRecords s))))"

definition formatRecord :: "AttendanceRecord \<Rightarrow> AttendanceRecord" where
  "formatRecord d =
     d\<lparr>check_in_time := check_in_time d,
       check_out_time := (case check_out_time d of Some t \<Rightarrow> Some t | None \<Rightarrow> None)\<rparr>"

definition checkIn_failed :: "Tracker \<Rightarrow> Tracker \<times> effect list" where
  "checkIn_failed s =
     (s\<lparr>isLoading := False\<rparr>,
      [ConsoleError ''Check-in failed'', Toast (Some Destructive) ''Check-in failed''])"

definition checkIn_resume ::
  "AttendanceRecord list \<Rightarrow> AttendanceRecord Response \<Rightarrow> Tracker \<Rightarrow> Tracker \<times> effect list" where
  "checkIn_resume captured resp s =
     (case error resp of
        Some e \<Rightarrow> checkIn_failed s
      | None \<Rightarrow>
          (case data resp of
             None \<Rightarrow> checkIn_failed s
           | Some d \<Rightarrow>
               (let newRecord = formatRecord d
                in (s\<lparr>todayRecord := Some newRecord,
                      recentRecords := newRecord # captured,
                      isLoading := False\<rparr>,
                    [Toast None ''Checked in successfully'']))))"

definition checkIn ::
  "Date \<Rightarrow> AttendanceRecord Response \<Rightarrow> Tracker \<Rightarrow> Tracker \<times> effect list" where
  "checkIn now resp s =
     (case checkIn_begin now s of
        (s1, es, None) \<Rightarrow> (s1, es)
      | (s1, es, Some captured) \<Rightarrow>
          (case checkIn_resume captured resp s1 of (s2, es2) \<Rightarrow> (s2, es @ es2)))"

text \<open>
  \<^verbatim>\<open>checkOut\<close>, in the same two steps. After the answer the new record always has a
  check-out time: \<^verbatim>\<open>new Date(data.check_out_time)\<close> is applied without a test, and
  \<^verbatim>\<open>new Date(null)\<close> is the epoch.
\<close>

definition checkOut_begin ::
  "Date \<Rightarrow> Tracker \<Rightarrow> Tracker \<times> effect list \<times> AttendanceRecord list option" where
  "checkOut_begin now s =
     (case user s of
        None \<Rightarrow> (s, [], None)
      | Some u \<Rightarrow>
          (case todayRecord s of
             None \<Rightarrow> (s, [], None)
           | Some r \<Rightarrow>
               (case check_out_time r of
                  Some t \<Rightarrow>
                    (s\<lparr>isLoading := False\<rparr>, [Toast (Some Default) ''Already checked out''], None)
                | None \<Rightarrow>
                    (s\<lparr>isLoading := True\<rparr>, [Update (record_id r) now],
                     Some (recentRecords s)))))"

definition checkOut_failed :: "Tracker \<Rightarrow> Tracker \<times> effect list" where
  "checkOut_failed s =
     (s\<lparr>isLoading := False\<rparr>,
      [ConsoleError ''Check-out failed'', Toast (Some Destructive) ''Check-out failed''])"

definition checkOut_resume ::
  "AttendanceRecord list \<Rightarrow> AttendanceRecord Response \<Rightarrow> Tracker \<Rightarrow> Tracker \<times> effect list" where
  "checkOut_resume captured resp s =
     (case error resp of
        Some e \<Rightarrow> checkOut_failed s
      | None \<Rightarrow>
          (case data resp of
             None \<Rightarrow> checkOut_failed s
           | Some d \<Rightarrow>
               (let updatedRecord =
                      d\<lparr>check_in_time := check_in_time d,
                        check_out_time :=
                          Some (case check_out_time d of Some t \<Rightarrow> t | None \<Rightarrow> 0)\<rparr>
                in (s\<lparr>todayRecord := Some updatedRecord,
                      recentRecords :=
                        map (\<lambda>record. if record_id record = record_id updatedRecord
                                       then updatedRecord else record) captured,
                      isLoading := False\<rparr>,
                    [Toast None ''Checked out successfully'']))))"

definition checkOut ::
  "Date \<Rightarrow> AttendanceRecord Response \<Rightarrow> Tracker \<Rightarrow> Tracker \<times> effect list" where
  "checkOut now resp s =
     (case checkOut_begin now s of
        (s1, es, None) \<Rightarrow> (s1, es)
      | (s1, es, Some captured) \<Rightarrow>
          (case checkOut_resume captured resp s1 of (s2, es2) \<Rightarrow> (s2, es @ es2)))"

text \<open>
  A run of check-in and check-out calls, each finished before the next starts. Every
  call brings the clock reading it takes and the answer the remote table gives it.
\<close>

datatype call =
    CheckIn Date "AttendanceRecord Response"
  | CheckOut Date "AttendanceRecord Response"

fun run_call :: "call \<Rightarrow> Tracker \<Rightarrow> Tracker \<times> effect list" where
  "run_call (CheckIn now resp) s = checkIn now resp s"
| "run_call (CheckOut now resp) s = checkOut now resp s"

fun run_calls :: "call list \<Rightarrow> Tracker \<Rightarrow> Tracker \<times> effect list" where
  "run_calls [] s = (s, [])"
| "run_calls (c # cs) s =
     (case run_call c s of
        (s1, es) \<Rightarrow> (case run_calls cs s1 of (s2, es2) \<Rightarrow> (s2, es @ es2)))"

text \<open>The records a run has created: one for every check-in that the table accepted.\<close>

definition created_by :: "effect list \<Rightarrow> nat" where
  "created_by es = length (filter (\<lambda>e. e = Toast None ''Checked in successfully'') es)"


subsection \<open>Loading and the effect on a change of identity\<close>

text \<open>
  \<^verbatim>\<open>loadAttendanceRecords\<close> with its two queries, taken as one step. The lower bound of
  the second query is \<^verbatim>\<open>thirtyDaysAgo\<close>, which the source computes in the calendar of
  the browser's time zone; it is an argument here.
\<close>

definition load_failed :: "Tracker \<Rightarrow> effect list \<Rightarrow> Tracker \<times> effect list" where
  "load_failed s requests =
     (s\<lparr>isLoading := False\<rparr>,
      requests @ [ConsoleError ''Failed to load attendance records'',
                  Toast (Some Destructive) ''Error loading attendance''])"

definition loadAttendanceRecords ::
  "Date \<Rightarrow> Date \<Rightarrow> AttendanceRecord Response \<Rightarrow> AttendanceRecord list Response
     \<Rightarrow> Tracker \<Rightarrow> Tracker \<times> effect list" where
  "loadAttendanceRecords now thirtyDaysAgo todayResp recentResp s =
     (case user s of
        None \<Rightarrow> (s, [])
      | Some u \<Rightarrow>
          (let q1 = SelectToday (uid u) (toISODate now);
               q2 = SelectRecent (uid u) (toISODate thirtyDaysAgo)
           in case error todayResp of
                Some e \<Rightarrow> load_failed s [q1]
              | None \<Rightarrow>
                  (let s1 = s\<lparr>todayRecord := map_option formatRecord (data todayResp)\<rparr>
                   in case error recentResp of
                        Some e \<Rightarrow> load_failed s1 [q1, q2]
                      | None \<Rightarrow>
                          (case data recentResp of
                             Some recentData \<Rightarrow>
                               (s1\<lparr>recentRecords := map formatRecord recentData,
                                   isLoading := False\<rparr>, [q1, q2])
                           | None \<Rightarrow> (s1\<lparr>isLoading := False\<rparr>, [q1, q2])))))"

definition user_effect ::
  "Date \<Rightarrow> Date \<Rightarrow> AttendanceRecord Response \<Rightarrow> AttendanceRecord list Response
     \<Rightarrow> Tracker \<Rightarrow> Tracker \<times> effect list" where
  "user_effect now thirtyDaysAgo todayResp recentResp s =
     (case user s of
        Some u \<Rightarrow> loadAttendanceRecords now thirtyDaysAgo todayResp recentResp s
      | None \<Rightarrow> (s\<lparr>todayRecord := None, recentRecords := []\<rparr>, []))"

subsection \<open>The date-range query\<close>

record DateRange =
  range_from :: "Date option"
  range_to :: "Date option"

definition fetchAttendanceByDateRange ::
  "DateRange \<Rightarrow> AttendanceRecord list Response \<Rightarrow> Tracker
     \<Rightarrow> AttendanceRecord list \<times> Tracker \<times> effect list" where
  "fetchAttendanceByDateRange dateRange resp s =
     (case user s of
        None \<Rightarrow> ([], s, [])
      | Some u \<Rightarrow>
          (case range_from dateRange of
             None \<Rightarrow> ([], s, [])
           | Some f \<Rightarrow>
               (case range_to dateRange of
                  None \<Rightarrow> ([], s, [])
                | Some t \<Rightarrow>
                    (let fromDate = toISODate f;
                         toDate = toISODate t;
                         q = SelectRange (uid u) fromDate toDate
                     in case error resp of
                          Some e \<Rightarrow>
                            ([], s\<lparr>isLoading := False\<rparr>,
                             [q, ConsoleError ''Failed to fetch attendance by date range'',
                              Toast (Some Destructive) ''Error loading attendance''])
                        | None \<Rightarrow>
                            (case data resp of
                               Some rows \<Rightarrow> (map formatRecord rows, s\<lparr>isLoading := False\<rparr>, [q])
                             | None \<Rightarrow> ([], s\<lparr>isLoading := False\<rparr>, [q]))))))"

text \<open>
  Modelled from the spec: the remote table is not part of the repository. What it
  answers to the request the source builds (\<^verbatim>\<open>eq user_id\<close>, \<^verbatim>\<open>gte date\<close>, \<^verbatim>\<open>lte date\<close>, \<^verbatim>\<open>order date descending\<close>)
  is the contract \<^verbatim>\<open>queryByUserAndDateRange\<close> of the specification: the rows of that
  user whose day key is between the bounds, by descending day key. Day keys are
  compared as text, which for keys of the form \<^verbatim>\<open>YYYY-MM-DD\<close> is the order of the
  calendar.
\<close>

definition in_range :: "string \<Rightarrow> string \<Rightarrow> string \<Rightarrow> AttendanceRecord \<Rightarrow> bool" where
  "in_range u lo hi r = (user_id r = u \<and> lo \<le> date r \<and> date r \<le> hi)"

text \<open>
  Modelled from the spec: the answer of the remote table, which is not part of the
  repository, to a date-range request, by the contract \<^verbatim>\<open>queryByUserAndDateRange\<close>.
\<close>

definition answer_range :: "AttendanceRecord list \<Rightarrow> effect \<Rightarrow> AttendanceRecord list Response" where
  "answer_range table q =
     (case q of
        SelectRange u lo hi \<Rightarrow>
          \<lparr>data = Some (rev (sort_key date (filter (in_range u lo hi) table))), error = None\<rparr>
      | _ \<Rightarrow> \<lparr>data = None, error = Some ''unsupported request''\<rparr>)"

subsection \<open>The dashboard's two buttons\<close>

text \<open>The \<^verbatim>\<open>disabled\<close> attributes of the check-in and the check-out button.\<close>

definition checkIn_disabled :: "Tracker \<Rightarrow> bool" where
  "checkIn_disabled s = (todayRecord s \<noteq> None \<or> isLoading s)"

definition checkOut_disabled :: "Tracker \<Rightarrow> bool" where
  "checkOut_disabled s = (\<not> isCheckedIn s \<or> isLoading s)"

section \<open>The report screen\<close>

record AttendanceReport =
  report_id :: string
  report_date :: string
  checkInTime :: string
  checkOutTime :: "string option"
  duration :: string

text \<open>
  The rows that \<^verbatim>\<open>generateReport\<close> makes of the fetched records. The two uses of
  date-fns' \<^verbatim>\<open>format\<close> (\<^verbatim>\<open>format(new Date(record.date), 'yyyy-MM-dd')\<close> and
  \<^verbatim>\<open>format(time, 'HH:mm:ss')\<close>) render in the time zone of the browser and are
  arguments.
\<close>

definition generateReport ::
  "(string \<Rightarrow> string) \<Rightarrow> (Date \<Rightarrow> string) \<Rightarrow> AttendanceRecord list \<Rightarrow> AttendanceReport list" where
  "generateReport format_date format_time records =
     map (\<lambda>record.
            \<lparr>report_id = record_id record,
             report_date = format_date (date record),
             checkInTime = format_time (check_in_time record),
             checkOutTime = map_option format_time (check_out_time record),
             duration = report_duration (check_in_time record) (check_out_time record)\<rparr>)
         records"

subsection \<open>CSV export\<close>

definition newline :: char where
  "newline = CHR 0x0A"

fun join :: "string \<Rightarrow> string list \<Rightarrow> string" where
  "join sep [] = []"
| "join sep [x] = x"
| "join sep (x # y # ys) = x @ sep @ join sep (y # ys)"

text \<open>
  \<^verbatim>\<open>record.checkOutTime || "Not checked out"\<close>: the replacement is taken for \<^verbatim>\<open>null\<close> and
  for the empty text, the two falsy values of the field.
\<close>

definition csv_row :: "AttendanceReport \<Rightarrow> string" where
  "csv_row record =
     report_date record @ '','' @ checkInTime record @ '','' @
     (case checkOutTime record of
        None \<Rightarrow> ''Not checked out''
      | Some t \<Rightarrow> (if t = [] then ''Not checked out'' else t)) @ '','' @
     duration record"

text \<open>
  \<^verbatim>\<open>format(new Date(), 'yyyy-MM-dd')\<close> for a date of the common era, given by the
  year, month and day of the clock in the browser's calendar.
\<close>

definition format_yyyy_MM_dd :: "nat \<times> nat \<times> nat \<Rightarrow> string" where
  "format_yyyy_MM_dd ymd =
     (case ymd of (y, m, d) \<Rightarrow> pad 4 y @ ''-'' @ pad 2 m @ ''-'' @ pad 2 d)"

record Download =
  download_name :: string
  download_type :: string
  download_content :: string

text \<open>\<^verbatim>\<open>downloadCSV\<close>: \<open>None\<close> when it returns without offering a file.\<close>

definition downloadCSV :: "nat \<times> nat \<times> nat \<Rightarrow> AttendanceReport list \<Rightarrow> Download option" where
  "downloadCSV today reportData =
     (if length reportData = 0 then None
      else
        (let csvHeader = ''Date,Check In Time,Check Out Time,Duration'' @ [newline];
             csvRows = join [newline] (map csv_row reportData);
             csvString = csvHeader @ csvRows
         in Some \<lparr>download_name = ''attendance_report_'' @ format_yyyy_MM_dd today @ ''.csv'',
                  download_type = ''text/csv;charset=utf-8;'',
                  download_content = csvString\<rparr>))"

text \<open>The lines of a text: the pieces between its line feeds.\<close>

fun lines_of :: "string \<Rightarrow> string list" where
  "lines_of [] = [[]]"
| "lines_of (c # cs) =
     (if c = newline then [] # lines_of cs
      else (case lines_of cs of [] \<Rightarrow> [[c]] | l # ls \<Rightarrow> (c # l) # ls))"

subsection \<open>Summary figures\<close>

text \<open>
  \<^verbatim>\<open>parseInt\<close> with no radix: leading white space is skipped, a sign is read, a prefix
  \<^verbatim>\<open>0x\<close> selects radix 16, and the longest run of digits is the value. \<open>None\<close> is NaN.
\<close>

definition is_space :: "char \<Rightarrow> bool" where
  "is_space c = (c \<in> set [CHR '' '', CHR 0x09, CHR 0x0A, CHR 0x0B, CHR 0x0C, CHR 0x0D])"

definition digit_table :: "(char \<times> nat) list" where
  "digit_table = zip ''0123456789abcdef'' [0..<16] @ zip ''ABCDEF'' [10..<16]"

definition digit_of :: "nat \<Rightarrow> char \<Rightarrow> nat option" where
  "digit_of radix c =
     (case map_of digit_table c of
        None \<Rightarrow> None
      | Some v \<Rightarrow> (if v < radix then Some v else None))"

definition digits_value :: "nat \<Rightarrow> string \<Rightarrow> nat" where
  "digits_value radix z = foldl (\<lambda>acc c. acc * radix + the (digit_of radix c)) 0 z"

definition parseInt :: "string \<Rightarrow> int option" where
  "parseInt str =
     (let s0 = dropWhile is_space str;
          sign = (if s0 \<noteq> [] \<and> hd s0 = CHR ''-'' then - 1 else 1);
          s1 = (if s0 \<noteq> [] \<and> (hd s0 = CHR ''+'' \<or> hd s0 = CHR ''-'') then tl s0 else s0);
          hex = (take 2 s1 = ''0x'' \<or> take 2 s1 = ''0X'');
          radix = (if hex then 16 else 10);
          s2 = (if hex then drop 2 s1 else s1);
          z = takeWhile (\<lambda>c. digit_of radix c \<noteq> None) s2
      in if z = [] then None else Some (sign * int (digits_value radix z)))"

text \<open>
  \<^verbatim>\<open>totalHours\<close>: the \<^verbatim>\<open>reduce\<close> over the rows, where \<^verbatim>\<open>duration.split('h')[0]\<close> is the
  text before the first \<^verbatim>\<open>h\<close>. A sum with NaN is NaN.
\<close>

definition add_hours :: "int option \<Rightarrow> AttendanceReport \<Rightarrow> int option" where
  "add_hours acc record =
     (if duration record \<noteq> ''In progress''
      then (case parseInt (takeWhile (\<lambda>c. c \<noteq> CHR ''h'') (duration record)) of
              None \<Rightarrow> None
            | Some hours \<Rightarrow> (case acc of None \<Rightarrow> None | Some t \<Rightarrow> Some (t + hours)))
      else acc)"

definition totalHours :: "AttendanceReport list \<Rightarrow> int option" where
  "totalHours reportData = foldl add_hours (Some 0) reportData"

text \<open>
  \<^verbatim>\<open>totalHours / totalDays\<close> is a division of JavaScript numbers: the exact quotient
  rounded to the nearest double, ties to the even significand. \<open>to_double\<close> is that
  rounding for the normal range of doubles, which quotients of the integers below
  \<open>2 ^ 53\<close> do not leave: a number in the binade \<open>[2 ^ e, 2 ^ (e + 1))\<close> is rounded to a
  multiple of \<open>2 ^ (e - 52)\<close>.
\<close>

definition round_half_even :: "rat \<Rightarrow> int" where
  "round_half_even x =
     (let f = \<lfloor>x\<rfloor>; r = x - of_int f
      in if r < 1 / 2 then f else if 1 / 2 < r then f + 1 else if even f then f else f + 1)"

definition binade :: "rat \<Rightarrow> int" where
  "binade x =
     (case quotient_of x of
        (n, d) \<Rightarrow>
          (let e = int (floorlog 2 (nat n)) - int (floorlog 2 (nat d))
           in if 2 powi e \<le> x then e else e - 1))"

definition to_double :: "rat \<Rightarrow> rat" where
  "to_double x =
     (if x = 0 then 0
      else (let ulp = 2 powi (binade \<bar>x\<bar> - 52)
            in sgn x * of_int (round_half_even (\<bar>x\<bar> / ulp)) * ulp))"

text \<open>
  \<^verbatim>\<open>x.toFixed(1)\<close> for a number below \<open>10 ^ 21\<close>: with \<open>n\<close> the integer for which \<open>n / 10\<close> is
  closest to the magnitude of \<open>x\<close>, the larger one of two, the digits of \<open>n\<close> with a point
  before the last, and a minus sign when \<open>x\<close> is negative.
\<close>

definition toFixed1 :: "rat \<Rightarrow> string" where
  "toFixed1 x =
     (let n = nat \<lfloor>10 * \<bar>x\<bar> + 1 / 2\<rfloor>
      in (if x < 0 then ''-'' else []) @ show_nat (n div 10) @ ''.'' @ [digit_char (n mod 10)])"

text \<open>
  \<^verbatim>\<open>averageHoursPerDay\<close> is the text that \<^verbatim>\<open>toFixed\<close> returns, or the number 0 when there
  are no rows. \<^verbatim>\<open>NaN.toFixed(1)\<close> is the text \<^verbatim>\<open>NaN\<close>.
\<close>

datatype average = Number int | Fixed string

definition averageHoursPerDay :: "AttendanceReport list \<Rightarrow> average" where
  "averageHoursPerDay reportData =
     (let totalDays = length reportData
      in if totalDays > 0
         then Fixed (case totalHours reportData of
                       None \<Rightarrow> ''NaN''
                     | Some hours \<Rightarrow> toFixed1 (to_double (of_int hours / of_nat totalDays)))
         else Number 0)"

section \<open>The tracker that keeps its records in local storage\<close>

subsection \<open>Values that come out of local storage\<close>

text \<open>
  The session store and the local tracker put what \<^verbatim>\<open>JSON.parse\<close> returns into their
  state without looking at it, so the values they hold are JavaScript values and not
  the declared types. A parsed value is a \<open>json\<close>; its numbers are the integers (a
  fraction, and an integer too large to be one exactly in JavaScript, are outside the
  model). A \<^verbatim>\<open>Date\<close> object may be invalid. A property that an object does not have
  reads as \<^verbatim>\<open>undefined\<close>, which is \<open>None\<close>.
\<close>

datatype json =
    JNull
  | JBool bool
  | JNum int
  | JStr string
  | JArr "json list"
  | JObj "(string \<times> json) list"

datatype jsdate = ValidDate Date | InvalidDate

text \<open>Truthiness, as \<^verbatim>\<open>if (x)\<close>, \<^verbatim>\<open>!x\<close> and \<^verbatim>\<open>x ? a : b\<close> test it.\<close>

definition truthy :: "json \<Rightarrow> bool" where
  "truthy v =
     (case v of
        JNull \<Rightarrow> False
      | JBool b \<Rightarrow> b
      | JNum n \<Rightarrow> n \<noteq> 0
      | JStr s \<Rightarrow> s \<noteq> []
      | JArr xs \<Rightarrow> True
      | JObj ps \<Rightarrow> True)"

definition truthy_property :: "json option \<Rightarrow> bool" where
  "truthy_property x = (case x of None \<Rightarrow> False | Some v \<Rightarrow> truthy v)"

definition compound :: "json \<Rightarrow> bool" where
  "compound v = (case v of JArr xs \<Rightarrow> True | JObj ps \<Rightarrow> True | _ \<Rightarrow> False)"

text \<open>
  The own enumerable properties of a parsed value. They are what the spread
  \<^verbatim>\<open>{...record}\<close> copies and, for the names that the source reads (\<^verbatim>\<open>id\<close>, \<^verbatim>\<open>date\<close>,
  \<^verbatim>\<open>checkInTime\<close>, \<^verbatim>\<open>checkOutTime\<close>), also what reading the property returns: the
  members of an object (of two members with one name the later one), the elements of
  an array and the characters of a text under their indices, and nothing for a number
  or a boolean.
\<close>

definition index_of :: "string \<Rightarrow> nat \<Rightarrow> nat option" where
  "index_of k n = find (\<lambda>i. show_nat i = k) [0..<n]"

definition properties :: "json \<Rightarrow> string \<Rightarrow> json option" where
  "properties v k =
     (case v of
        JObj ps \<Rightarrow> map_of (rev ps) k
      | JArr xs \<Rightarrow> map_option (\<lambda>i. xs ! i) (index_of k (length xs))
      | JStr s \<Rightarrow> map_option (\<lambda>i. JStr [s ! i]) (index_of k (length s))
      | _ \<Rightarrow> None)"

text \<open>The text of a value inside a template literal such as \<^verbatim>\<open>`attendance_${user.id}`\<close>.\<close>

fun to_text :: "json \<Rightarrow> string" where
  "to_text JNull = ''null''"
| "to_text (JBool b) = (if b then ''true'' else ''false'')"
| "to_text (JNum n) = show_int n"
| "to_text (JStr s) = s"
| "to_text (JArr xs) = join '','' (map (\<lambda>x. if x = JNull then [] else to_text x) xs)"
| "to_text (JObj ps) = ''[object Object]''"

definition property_text :: "json option \<Rightarrow> string" where
  "property_text x = (case x of None \<Rightarrow> ''undefined'' | Some v \<Rightarrow> to_text v)"

text \<open>
  \<^verbatim>\<open>new Date(x)\<close> for a property \<open>x\<close>. \<^verbatim>\<open>Date.parse\<close> decides for a text, and for an
  array or an object, which is turned into text first; what it makes of a text that
  is not in the ISO format depends on the browser, so it is the argument \<open>parse\<close>.
\<close>

definition new_Date :: "(string \<Rightarrow> jsdate) \<Rightarrow> json option \<Rightarrow> jsdate" where
  "new_Date parse x =
     (case x of
        None \<Rightarrow> InvalidDate
      | Some v \<Rightarrow>
          (case v of
             JNull \<Rightarrow> ValidDate 0
           | JBool b \<Rightarrow> ValidDate (if b then 1 else 0)
           | JNum n \<Rightarrow> (if \<bar>n\<bar> \<le> 8640000000000000 then ValidDate n else InvalidDate)
           | JStr s \<Rightarrow> parse s
           | JArr xs \<Rightarrow> parse (to_text v)
           | JObj ps \<Rightarrow> parse (to_text v)))"

subsection \<open>State and storage\<close>

text \<open>
  A record in the state of the local tracker: the \<^verbatim>\<open>Date\<close> object under \<^verbatim>\<open>checkInTime\<close>,
  the \<^verbatim>\<open>Date\<close> object or \<^verbatim>\<open>null\<close> under \<^verbatim>\<open>checkOutTime\<close>, and its other properties
  by name (\<open>property\<close>). Two arrays or objects are equal for \<^verbatim>\<open>===\<close> only when they are
  one object. \<open>element\<close> is the position of the array element that the load made the
  record of (nothing for a record that \<^verbatim>\<open>checkIn\<close> made); the loaded records of a state
  all come from one load, so two arrays or objects among their properties are one
  object exactly when they belong to the same element.
\<close>

record LocalRecord =
  element :: "nat option"
  property :: "string \<Rightarrow> json option"
  local_checkInTime :: jsdate
  local_checkOutTime :: "jsdate option"

text \<open>
  What a render of the local \<^verbatim>\<open>AttendanceProvider\<close> sees: the identity that \<^verbatim>\<open>useAuth\<close>
  supplies, which is the value the session store holds (\<open>JNull\<close> is \<^verbatim>\<open>null\<close>), and the
  two state cells.
\<close>

record LocalTracker =
  local_user :: json
  local_todayRecord :: "LocalRecord option"
  local_recentRecords :: "LocalRecord list"

definition initial_local :: LocalTracker where
  "initial_local = \<lparr>local_user = JNull, local_todayRecord = None, local_recentRecords = []\<rparr>"

text \<open>
  Local storage holds text. The model holds what reading the text back gives: the
  empty text, a text that \<^verbatim>\<open>JSON.parse\<close> rejects, a text that parses to a value, or
  the text that \<^verbatim>\<open>JSON.stringify\<close> made of the tracker's records. The key \<^verbatim>\<open>user\<close> and
  the keys \<^verbatim>\<open>attendance_...\<close> never coincide and are kept apart.
\<close>

datatype stored_item = EmptyText | Unparseable | Parsed json | Written "LocalRecord list"

datatype stored_user = EmptyUserText | UnparseableUser | ParsedUser json

record LocalStorage =
  user_item :: "stored_user option"
  attendance_items :: "string \<Rightarrow> stored_item option"

datatype completion = Returned | Threw

definition attendance_key :: "json \<Rightarrow> string" where
  "attendance_key u = ''attendance_'' @ property_text (properties u ''id'')"

subsection \<open>Loading\<close>

text \<open>
  The callback of \<^verbatim>\<open>JSON.parse(storedRecords).map(...)\<close> on the element at position
  \<open>i\<close>: \<open>None\<close> when it throws, which it does on \<^verbatim>\<open>null\<close>, whose \<^verbatim>\<open>checkInTime\<close> it reads
  (a TypeError). Of any other element it makes an object with the element's
  properties, a \<^verbatim>\<open>Date\<close> under \<^verbatim>\<open>checkInTime\<close>, and a \<^verbatim>\<open>Date\<close> or \<^verbatim>\<open>null\<close> under
  \<^verbatim>\<open>checkOutTime\<close>.
\<close>

definition convert :: "(string \<Rightarrow> jsdate) \<Rightarrow> nat \<Rightarrow> json \<Rightarrow> LocalRecord option" where
  "convert parse i record =
     (if record = JNull then None
      else Some
        \<lparr>element = Some i,
         property = (properties record)(''checkInTime'' := None, ''checkOutTime'' := None),
         local_checkInTime = new_Date parse (properties record ''checkInTime''),
         local_checkOutTime =
           (if truthy_property (properties record ''checkOutTime'')
            then Some (new_Date parse (properties record ''checkOutTime''))
            else None)\<rparr>)"

fun convert_all :: "(string \<Rightarrow> jsdate) \<Rightarrow> nat \<Rightarrow> json list \<Rightarrow> LocalRecord list option" where
  "convert_all parse i [] = Some []"
| "convert_all parse i (e # es) =
     (case convert parse i e of
        None \<Rightarrow> None
      | Some r \<Rightarrow>
          (case convert_all parse (Suc i) es of
             None \<Rightarrow> None
           | Some rs \<Rightarrow> Some (r # rs)))"

text \<open>
  The same callback on the text that \<^verbatim>\<open>saveAttendanceRecords\<close> wrote of a record.
  \<^verbatim>\<open>JSON.stringify\<close> writes a valid \<^verbatim>\<open>Date\<close> as its ISO text, which reads back as the
  same time value, and an invalid one as \<^verbatim>\<open>null\<close>; \<^verbatim>\<open>new Date(null)\<close> is the epoch.
  Every record is written as an object, so the callback does not throw.
\<close>

definition reread :: "nat \<Rightarrow> LocalRecord \<Rightarrow> LocalRecord" where
  "reread i r =
     \<lparr>element = Some i,
      property = property r,
      local_checkInTime =
        (case local_checkInTime r of ValidDate t \<Rightarrow> ValidDate t | InvalidDate \<Rightarrow> ValidDate 0),
      local_checkOutTime =
        (case local_checkOutTime r of
           Some (ValidDate t) \<Rightarrow> Some (ValidDate t)
         | Some InvalidDate \<Rightarrow> None
         | None \<Rightarrow> None)\<rparr>"

text \<open>
  \<^verbatim>\<open>JSON.parse(storedRecords).map(...)\<close> as a whole: \<open>None\<close> when it throws, which it
  does on a text that does not parse (a SyntaxError), on a value that is no array and
  so has no \<^verbatim>\<open>map\<close> (a TypeError), and on an array with an element \<^verbatim>\<open>null\<close>.
\<close>

definition parse_records :: "(string \<Rightarrow> jsdate) \<Rightarrow> stored_item \<Rightarrow> LocalRecord list option" where
  "parse_records parse item =
     (case item of
        EmptyText \<Rightarrow> None
      | Unparseable \<Rightarrow> None
      | Parsed v \<Rightarrow> (case v of JArr es \<Rightarrow> convert_all parse 0 es | _ \<Rightarrow> None)
      | Written rs \<Rightarrow> Some (map (\<lambda>(i, r). reread i r) (zip [0..<length rs] rs)))"

text \<open>
  The comparator \<^verbatim>\<open>new Date(b.checkInTime).getTime() - new Date(a.checkInTime).getTime()\<close>
  and the sort with it, which is stable. With an invalid date the comparator returns
  NaN, which the sort takes for 0; the comparator is then not consistent, and the
  order is the one of the engine's algorithm, for which this insertion sort stands.
\<close>

definition comparator :: "LocalRecord \<Rightarrow> LocalRecord \<Rightarrow> int" where
  "comparator a b =
     (case (local_checkInTime b, local_checkInTime a) of
        (ValidDate tb, ValidDate ta) \<Rightarrow> tb - ta
      | _ \<Rightarrow> 0)"

fun insert_sorted :: "LocalRecord \<Rightarrow> LocalRecord list \<Rightarrow> LocalRecord list" where
  "insert_sorted a [] = [a]"
| "insert_sorted a (b # bs) =
     (if comparator a b \<le> 0 then a # b # bs else b # insert_sorted a bs)"

definition sort_newest_first :: "LocalRecord list \<Rightarrow> LocalRecord list" where
  "sort_newest_first rs = foldr insert_sorted rs []"

text \<open>
  \<^verbatim>\<open>loadAttendanceRecords\<close> of the local variant. \<open>today\<close> is
  \<^verbatim>\<open>new Date().toLocaleDateString()\<close>, which depends on the locale and the time zone of
  the browser and is an argument. A missing item and an empty text are both falsy
  for \<^verbatim>\<open>if (storedRecords)\<close>, which has no \<^verbatim>\<open>else\<close>.
\<close>

definition loadAttendanceRecords_local ::
  "(string \<Rightarrow> jsdate) \<Rightarrow> string \<Rightarrow> LocalStorage \<Rightarrow> LocalTracker \<Rightarrow> LocalTracker \<times> effect list" where
  "loadAttendanceRecords_local parse today ls s =
     (if \<not> truthy (local_user s) then (s, [])
      else
        (case attendance_items ls (attendance_key (local_user s)) of
           None \<Rightarrow> (s, [])
         | Some storedRecords \<Rightarrow>
             (if storedRecords = EmptyText then (s, [])
              else
                (case parse_records parse storedRecords of
                   None \<Rightarrow> (s, [ConsoleError ''Failed to load attendance records''])
                 | Some parsedRecords \<Rightarrow>
                     (s\<lparr>local_todayRecord :=
                          find (\<lambda>record. property record ''date'' = Some (JStr today)) parsedRecords,
                        local_recentRecords := sort_newest_first parsedRecords\<rparr>,
                      [])))))"

definition user_effect_local ::
  "(string \<Rightarrow> jsdate) \<Rightarrow> string \<Rightarrow> LocalStorage \<Rightarrow> LocalTracker \<Rightarrow> LocalTracker \<times> effect list" where
  "user_effect_local parse today ls s =
     (if truthy (local_user s) then loadAttendanceRecords_local parse today ls s
      else (s\<lparr>local_todayRecord := None, local_recentRecords := []\<rparr>, []))"

subsection \<open>Saving, check-in and check-out\<close>

text \<open>
  \<^verbatim>\<open>saveAttendanceRecords\<close>. \<^verbatim>\<open>localStorage.setItem\<close> throws when the quota is
  exceeded; the source does not catch that, so the exception leaves the handler that
  called. The state updates requested before it are still applied.
\<close>

definition saveAttendanceRecords ::
  "bool \<Rightarrow> LocalRecord list \<Rightarrow> LocalTracker \<Rightarrow> LocalStorage \<Rightarrow> LocalStorage \<times> completion" where
  "saveAttendanceRecords quotaExceeded records s ls =
     (if \<not> truthy (local_user s) then (ls, Returned)
      else if quotaExceeded then (ls, Threw)
      else (ls\<lparr>attendance_items :=
                  (attendance_items ls)(attendance_key (local_user s) \<mapsto> Written records)\<rparr>,
            Returned))"

text \<open>
  \<^verbatim>\<open>checkIn\<close> and \<^verbatim>\<open>checkOut\<close> of the local variant; both are synchronous. The
  identifier of a new record is \<^verbatim>\<open>Date.now().toString()\<close>; the two clock readings of
  one call are taken to be equal.
\<close>

definition checkIn_local ::
  "Date \<Rightarrow> string \<Rightarrow> bool \<Rightarrow> LocalTracker \<Rightarrow> LocalStorage
     \<Rightarrow> LocalTracker \<times> LocalStorage \<times> effect list \<times> completion" where
  "checkIn_local now today quotaExceeded s ls =
     (if \<not> truthy (local_user s) then (s, ls, [], Returned)
      else
        (case local_todayRecord s of
           Some r \<Rightarrow> (s, ls, [Toast (Some Default) ''Already checked in''], Returned)
         | None \<Rightarrow>
             (let newRecord =
                    \<lparr>element = None,
                     property = (\<lambda>k. None)
                       (''id'' := Some (JStr (show_int now)),
                        ''userId'' := properties (local_user s) ''id'',
                        ''date'' := Some (JStr today)),
                     local_checkInTime = ValidDate now,
                     local_checkOutTime = None\<rparr>;
                  updatedRecords = newRecord # local_recentRecords s;
                  s1 = s\<lparr>local_todayRecord := Some newRecord,
                         local_recentRecords := updatedRecords\<rparr>
              in case saveAttendanceRecords quotaExceeded updatedRecords s ls of
                   (ls1, Threw) \<Rightarrow> (s1, ls1, [], Threw)
                 | (ls1, Returned) \<Rightarrow>
                     (s1, ls1, [Toast None ''Checked in successfully''], Returned))))"

text \<open>\<^verbatim>\<open>record.id === updatedRecord.id\<close>.\<close>

definition same_id :: "LocalRecord \<Rightarrow> LocalRecord \<Rightarrow> bool" where
  "same_id a b =
     (case (property a ''id'', property b ''id'') of
        (None, None) \<Rightarrow> True
      | (Some x, Some y) \<Rightarrow>
          (if compound x \<or> compound y
           then compound x \<and> compound y \<and> element a = element b
           else x = y)
      | _ \<Rightarrow> False)"

definition checkOut_local ::
  "Date \<Rightarrow> bool \<Rightarrow> LocalTracker \<Rightarrow> LocalStorage
     \<Rightarrow> LocalTracker \<times> LocalStorage \<times> effect list \<times> completion" where
  "checkOut_local now quotaExceeded s ls =
     (if \<not> truthy (local_user s) then (s, ls, [], Returned)
      else
        (case local_todayRecord s of
           None \<Rightarrow> (s, ls, [], Returned)
         | Some r \<Rightarrow>
             (case local_checkOutTime r of
                Some t \<Rightarrow> (s, ls, [Toast (Some Default) ''Already checked out''], Returned)
              | None \<Rightarrow>
                  (let updatedRecord = r\<lparr>local_checkOutTime := Some (ValidDate now)\<rparr>;
                       updatedRecords =
                         map (\<lambda>record. if same_id record updatedRecord then updatedRecord else record)
                           (local_recentRecords s);
                       s1 = s\<lparr>local_todayRecord := Some updatedRecord,
                              local_recentRecords := updatedRecords\<rparr>
                   in case saveAttendanceRecords quotaExceeded updatedRecords s ls of
                        (ls1, Threw) \<Rightarrow> (s1, ls1, [], Threw)
                      | (ls1, Returned) \<Rightarrow>
                          (s1, ls1, [Toast None ''Checked out successfully''], Returned)))))"


text \<open>A run of calls on the local tracker, one after another.\<close>

datatype local_call =
    LocalCheckIn Date string bool
  | LocalCheckOut Date bool

fun run_local_call ::
  "local_call \<Rightarrow> LocalTracker \<times> LocalStorage \<Rightarrow> (LocalTracker \<times> LocalStorage) \<times> effect list" where
  "run_local_call (LocalCheckIn now today quotaExceeded) (s, ls) =
     (case checkIn_local now today quotaExceeded s ls of (s1, ls1, es, c) \<Rightarrow> ((s1, ls1), es))"
| "run_local_call (LocalCheckOut now quotaExceeded) (s, ls) =
     (case checkOut_local now quotaExceeded s ls of (s1, ls1, es, c) \<Rightarrow> ((s1, ls1), es))"

fun run_local_calls ::
  "local_call list \<Rightarrow> LocalTracker \<times> LocalStorage \<Rightarrow> (LocalTracker \<times> LocalStorage) \<times> effect list" where
  "run_local_calls [] st = (st, [])"
| "run_local_calls (c # cs) st =
     (case run_local_call c st of
        (st1, es) \<Rightarrow> (case run_local_calls cs st1 of (st2, es2) \<Rightarrow> (st2, es @ es2)))"

subsection \<open>The session store\<close>

text \<open>
  \<^verbatim>\<open>login\<close>, \<^verbatim>\<open>register\<close> and \<^verbatim>\<open>logout\<close> of \<^verbatim>\<open>AuthProvider\<close>, and the effect it runs
  once on mount (\<open>restore_user\<close>). Each takes the identity it finds and returns the
  identity it leaves (\<open>JNull\<close> is \<^verbatim>\<open>null\<close>), the storage, and what it logged or showed.
  The mock login waits a second and accepts every password; neither is modelled.
  When \<^verbatim>\<open>localStorage.setItem\<close> throws, \<^verbatim>\<open>setUser\<close> has been called already.
\<close>

definition login :: "string \<Rightarrow> bool \<Rightarrow> LocalStorage \<Rightarrow> json \<times> LocalStorage \<times> effect list \<times> completion" where
  "login email' quotaExceeded ls =
     (let mockUser =
            JObj [(''id'', JStr ''1''), (''email'', JStr email'),
                  (''name'', JStr (takeWhile (\<lambda>c. c \<noteq> CHR ''@'') email'))]
      in if quotaExceeded
         then (mockUser, ls, [Toast (Some Destructive) ''Login failed''], Threw)
         else (mockUser, ls\<lparr>user_item := Some (ParsedUser mockUser)\<rparr>,
               [Toast None ''Login successful''], Returned))"



text \<open>
  \<^verbatim>\<open>setUser(JSON.parse(storedUser))\<close> takes whatever value the text parses to; only a
  text that does not parse reaches the \<^verbatim>\<open>catch\<close>.
\<close>

definition restore_user :: "LocalStorage \<Rightarrow> json \<Rightarrow> json \<times> LocalStorage \<times> effect list" where
  "restore_user ls current =
     (case user_item ls of
        None \<Rightarrow> (current, ls, [])
      | Some storedUser \<Rightarrow>
          (case storedUser of
             EmptyUserText \<Rightarrow> (current, ls, [])
           | UnparseableUser \<Rightarrow>
               (current, ls\<lparr>user_item := None\<rparr>,
                [ConsoleError ''Failed to parse user from localStorage''])
           | ParsedUser v \<Rightarrow> (v, ls, [])))"

section \<open>The dashboard driving the tracker\<close>

subsection \<open>The load and the date-range query, step by step\<close>

text \<open>
  \<^verbatim>\<open>loadAttendanceRecords\<close> and \<^verbatim>\<open>fetchAttendanceByDateRange\<close> write the busy flag too:
  each raises it before its first \<^verbatim>\<open>await\<close> and lowers it in its \<^verbatim>\<open>finally\<close>. Here they
  are cut at their \<^verbatim>\<open>await\<close>s, as \<^verbatim>\<open>checkIn\<close> and \<^verbatim>\<open>checkOut\<close> are above. The load
  keeps the user of the render in which it started, for its second query.
\<close>

definition load_begin :: "Date \<Rightarrow> Tracker \<Rightarrow> Tracker \<times> effect list \<times> User option" where
  "load_begin now s =
     (case user s of
        None \<Rightarrow> (s, [], None)
      | Some u \<Rightarrow> (s\<lparr>isLoading := True\<rparr>, [SelectToday (uid u) (toISODate now)], Some u))"

definition load_today ::
  "User \<Rightarrow> Date \<Rightarrow> AttendanceRecord Response \<Rightarrow> Tracker \<Rightarrow> Tracker \<times> effect list \<times> bool" where
  "load_today u thirtyDaysAgo todayResp s =
     (case error todayResp of
        Some e \<Rightarrow> (fst (load_failed s []), snd (load_failed s []), False)
      | None \<Rightarrow>
          (s\<lparr>todayRecord := map_option formatRecord (data todayResp)\<rparr>,
           [SelectRecent (uid u) (toISODate thirtyDaysAgo)], True))"

definition load_recent :: "AttendanceRecord list Response \<Rightarrow> Tracker \<Rightarrow> Tracker \<times> effect list" where
  "load_recent recentResp s =
     (case error recentResp of
        Some e \<Rightarrow> load_failed s []
      | None \<Rightarrow>
          (case data recentResp of
             Some recentData \<Rightarrow>
               (s\<lparr>recentRecords := map formatRecord recentData, isLoading := False\<rparr>, [])
           | None \<Rightarrow> (s\<lparr>isLoading := False\<rparr>, [])))"

text \<open>The effect on a change of identity, up to the first \<^verbatim>\<open>await\<close> of the load.\<close>

definition user_effect_begin :: "Date \<Rightarrow> Tracker \<Rightarrow> Tracker \<times> effect list \<times> User option" where
  "user_effect_begin now s =
     (case user s of
        Some u \<Rightarrow> load_begin now s
      | None \<Rightarrow> (s\<lparr>todayRecord := None, recentRecords := []\<rparr>, [], None))"

definition fetch_begin :: "DateRange \<Rightarrow> Tracker \<Rightarrow> Tracker \<times> effect list \<times> bool" where
  "fetch_begin dateRange s =
     (case user s of
        None \<Rightarrow> (s, [], False)
      | Some u \<Rightarrow>
          (case range_from dateRange of
             None \<Rightarrow> (s, [], False)
           | Some f \<Rightarrow>
               (case range_to dateRange of
                  None \<Rightarrow> (s, [], False)
                | Some t \<Rightarrow>
                    (s\<lparr>isLoading := True\<rparr>,
                     [SelectRange (uid u) (toISODate f) (toISODate t)], True))))"

definition fetch_resume ::
  "AttendanceRecord list Response \<Rightarrow> Tracker \<Rightarrow> AttendanceRecord list \<times> Tracker \<times> effect list" where
  "fetch_resume resp s =
     (case error resp of
        Some e \<Rightarrow>
          ([], s\<lparr>isLoading := False\<rparr>,
           [ConsoleError ''Failed to fetch attendance by date range'',
            Toast (Some Destructive) ''Error loading attendance''])
      | None \<Rightarrow>
          (case data resp of
             Some rows \<Rightarrow> (map formatRecord rows, s\<lparr>isLoading := False\<rparr>, [])
           | None \<Rightarrow> ([], s\<lparr>isLoading := False\<rparr>, [])))"

subsection \<open>The event loop\<close>

text \<open>
  What is in flight, and the events of the event loop. A click on a button of the
  dashboard starts a call unless the button is disabled. The session store replaces
  the identity (login, register, logout, restore), after which the tracker's effect
  runs; the two dates of that event are the clock readings of the load. The report
  page calls \<^verbatim>\<open>fetchAttendanceByDateRange\<close> whenever its date range changes. An answer
  of the remote table, with one row or with a list of rows, resumes what is in flight
  at the given position; an answer that does not fit what is in flight there changes
  nothing. \<open>direct_step\<close> is the same loop for a caller that invokes \<^verbatim>\<open>checkIn\<close> and
  \<^verbatim>\<open>checkOut\<close> without looking at the buttons.
\<close>

datatype in_flight =
    PendingCheckIn "AttendanceRecord list"
  | PendingCheckOut "AttendanceRecord list"
  | PendingToday User Date
  | PendingRecent
  | PendingFetch

datatype event =
    ClickCheckIn Date
  | ClickCheckOut Date
  | Answer nat "AttendanceRecord Response"
  | SetUser "User option" Date Date
  | FetchRange DateRange
  | AnswerRows nat "AttendanceRecord list Response"

definition start_checkIn :: "Date \<Rightarrow> Tracker \<times> in_flight list \<Rightarrow> Tracker \<times> in_flight list" where
  "start_checkIn now st =
     (case st of (s, ps) \<Rightarrow>
        (case checkIn_begin now s of
           (s1, es, None) \<Rightarrow> (s1, ps)
         | (s1, es, Some captured) \<Rightarrow> (s1, ps @ [PendingCheckIn captured])))"

definition start_checkOut :: "Date \<Rightarrow> Tracker \<times> in_flight list \<Rightarrow> Tracker \<times> in_flight list" where
  "start_checkOut now st =
     (case st of (s, ps) \<Rightarrow>
        (case checkOut_begin now s of
           (s1, es, None) \<Rightarrow> (s1, ps)
         | (s1, es, Some captured) \<Rightarrow> (s1, ps @ [PendingCheckOut captured])))"

definition set_user ::
  "User option \<Rightarrow> Date \<Rightarrow> Date \<Rightarrow> Tracker \<times> in_flight list \<Rightarrow> Tracker \<times> in_flight list" where
  "set_user u now thirtyDaysAgo st =
     (case st of (s, ps) \<Rightarrow>
        (case user_effect_begin now (s\<lparr>user := u\<rparr>) of
           (s1, es, None) \<Rightarrow> (s1, ps)
         | (s1, es, Some captured) \<Rightarrow> (s1, ps @ [PendingToday captured thirtyDaysAgo])))"

definition start_fetch :: "DateRange \<Rightarrow> Tracker \<times> in_flight list \<Rightarrow> Tracker \<times> in_flight list" where
  "start_fetch dateRange st =
     (case st of (s, ps) \<Rightarrow>
        (case fetch_begin dateRange s of
           (s1, es, False) \<Rightarrow> (s1, ps)
         | (s1, es, True) \<Rightarrow> (s1, ps @ [PendingFetch])))"

definition resume :: "nat \<Rightarrow> AttendanceRecord Response \<Rightarrow> Tracker \<times> in_flight list \<Rightarrow> Tracker \<times> in_flight list" where
  "resume i resp st =
     (case st of (s, ps) \<Rightarrow>
        (if i < length ps
         then (case ps ! i of
                 PendingCheckIn captured \<Rightarrow>
                   (fst (checkIn_resume captured resp s), take i ps @ drop (Suc i) ps)
               | PendingCheckOut captured \<Rightarrow>
                   (fst (checkOut_resume captured resp s), take i ps @ drop (Suc i) ps)
               | PendingToday u thirtyDaysAgo \<Rightarrow>
                   (case load_today u thirtyDaysAgo resp s of
                      (s1, es, False) \<Rightarrow> (s1, take i ps @ drop (Suc i) ps)
                    | (s1, es, True) \<Rightarrow> (s1, ps[i := PendingRecent]))
               | PendingRecent \<Rightarrow> (s, ps)
               | PendingFetch \<Rightarrow> (s, ps))
         else (s, ps)))"

definition resume_rows ::
  "nat \<Rightarrow> AttendanceRecord list Response \<Rightarrow> Tracker \<times> in_flight list \<Rightarrow> Tracker \<times> in_flight list" where
  "resume_rows i resp st =
     (case st of (s, ps) \<Rightarrow>
        (if i < length ps
         then (case ps ! i of
                 PendingRecent \<Rightarrow> (fst (load_recent resp s), take i ps @ drop (Suc i) ps)
               | PendingFetch \<Rightarrow> (fst (snd (fetch_resume resp s)), take i ps @ drop (Suc i) ps)
               | _ \<Rightarrow> (s, ps))
         else (s, ps)))"

fun direct_step :: "event \<Rightarrow> Tracker \<times> in_flight list \<Rightarrow> Tracker \<times> in_flight list" where
  "direct_step (ClickCheckIn now) st = start_checkIn now st"
| "direct_step (ClickCheckOut now) st = start_checkOut now st"
| "direct_step (Answer i resp) st = resume i resp st"
| "direct_step (SetUser u now thirtyDaysAgo) st = set_user u now thirtyDaysAgo st"
| "direct_step (FetchRange dateRange) st = start_fetch dateRange st"
| "direct_step (AnswerRows i resp) st = resume_rows i resp st"

fun dashboard_step :: "event \<Rightarrow> Tracker \<times> in_flight list \<Rightarrow> Tracker \<times> in_flight list" where
  "dashboard_step (ClickCheckIn now) st =
     (if checkIn_disabled (fst st) then st else start_checkIn now st)"
| "dashboard_step (ClickCheckOut now) st =
     (if checkOut_disabled (fst st) then st else start_checkOut now st)"
| "dashboard_step (Answer i resp) st = resume i resp st"
| "dashboard_step (SetUser u now thirtyDaysAgo) st = set_user u now thirtyDaysAgo st"
| "dashboard_step (FetchRange dateRange) st = start_fetch dateRange st"
| "dashboard_step (AnswerRows i resp) st = resume_rows i resp st"

fun run_events ::
  "(event \<Rightarrow> Tracker \<times> in_flight list \<Rightarrow> Tracker \<times> in_flight list)
     \<Rightarrow> event list \<Rightarrow> Tracker \<times> in_flight list \<Rightarrow> Tracker \<times> in_flight list" where
  "run_events step [] st = st"
| "run_events step (e # es) st = run_events step es (step e st)"

text \<open>
  The check-in and check-out calls among what is in flight, and the events that
  neither replace the identity nor complete a load or a date-range query: the clicks,
  the start of a date-range query, and the answers with one row (with no load in
  flight these are the answers to check-in and check-out calls).
\<close>

definition is_call :: "in_flight \<Rightarrow> bool" where
  "is_call p = (case p of PendingCheckIn c \<Rightarrow> True | PendingCheckOut c \<Rightarrow> True | _ \<Rightarrow> False)"

definition calls :: "Tracker \<times> in_flight list \<Rightarrow> in_flight list" where
  "calls st = filter is_call (snd st)"

definition no_completion :: "event \<Rightarrow> bool" where
  "no_completion e =
     (case e of
        ClickCheckIn now \<Rightarrow> True
      | ClickCheckOut now \<Rightarrow> True
      | Answer i resp \<Rightarrow> True
      | FetchRange dateRange \<Rightarrow> True
      | _ \<Rightarrow> False)"

text \<open>
  At most one call in flight, the busy flag raised while there is one, and nothing
  else in flight than calls and date-range queries.
\<close>

definition serial :: "Tracker \<times> in_flight list \<Rightarrow> bool" where
  "serial st =
     (length (calls st) \<le> 1 \<and> (calls st \<noteq> [] \<longrightarrow> isLoading (fst st))
      \<and> list_all (\<lambda>p. is_call p \<or> p = PendingFetch) (snd st))"

section \<open>Example values\<close>

definition alice :: User where
  "alice = \<lparr>uid = ''1'', email = ''alice@example.org'', name = ''alice''\<rparr>"

definition bob :: User where
  "bob = \<lparr>uid = ''2'', email = ''bob@example.org'', name = ''bob''\<rparr>"

text \<open>8 o'clock and 17 o'clock UTC on 2 January 2024.\<close>

definition eight :: Date where
  "eight = 1704182400000"

definition seventeen :: Date where
  "seventeen = 1704214800000"

definition morning :: AttendanceRecord where
  "morning = \<lparr>record_id = ''r1'', user_id = ''1'', check_in_time = eight,
              check_out_time = None, date = ''2024-01-02''\<rparr>"

definition evening :: AttendanceRecord where
  "evening = morning\<lparr>check_out_time := Some seventeen\<rparr>"

definition logged_in :: Tracker where
  "logged_in = \<lparr>user = Some alice, todayRecord = None, recentRecords = [], isLoading = False\<rparr>"

definition checked_in :: Tracker where
  "checked_in = logged_in\<lparr>todayRecord := Some morning, recentRecords := [morning]\<rparr>"

definition checked_out :: Tracker where
  "checked_out = logged_in\<lparr>todayRecord := Some evening, recentRecords := [evening]\<rparr>"

definition accepted :: "AttendanceRecord \<Rightarrow> AttendanceRecord Response" where
  "accepted row = \<lparr>data = Some row, error = None\<rparr>"

definition refused :: "'a Response" where
  "refused = \<lparr>data = None, error = Some ''network error''\<rparr>"

text \<open>
  The same for the local tracker: the identities that \<^verbatim>\<open>login\<close> and \<^verbatim>\<open>register\<close> make,
  the record that a check-in at 8 o'clock makes, and a \<^verbatim>\<open>Date.parse\<close> that accepts no
  text, which is all the examples need.
\<close>

definition empty_storage :: LocalStorage where
  "empty_storage = \<lparr>user_item = None, attendance_items = (\<lambda>k. None)\<rparr>"

definition local_alice :: json where
  "local_alice =
     JObj [(''id'', JStr ''1''), (''email'', JStr ''alice@example.org''), (''name'', JStr ''alice'')]"

definition local_bob :: json where
  "local_bob =
     JObj [(''id'', JStr ''1704186000000''), (''email'', JStr ''bob@example.org''),
           (''name'', JStr ''bob'')]"

definition local_morning :: LocalRecord where
  "local_morning =
     \<lparr>element = None,
      property = (\<lambda>k. None)
        (''id'' := Some (JStr ''1704182400000''),
         ''userId'' := Some (JStr ''1''),
         ''date'' := Some (JStr ''1/2/2024'')),
      local_checkInTime = ValidDate eight,
      local_checkOutTime = None\<rparr>"

definition local_evening :: LocalRecord where
  "local_evening = local_morning\<lparr>local_checkOutTime := Some (ValidDate seventeen)\<rparr>"

definition local_logged_in :: LocalTracker where
  "local_logged_in = initial_local\<lparr>local_user := local_alice\<rparr>"

definition local_checked_in :: LocalTracker where
  "local_checked_in =
     local_logged_in\<lparr>local_todayRecord := Some local_morning, local_recentRecords := [local_morning]\<rparr>"

definition local_checked_out :: LocalTracker where
  "local_checked_out =
     local_logged_in\<lparr>local_todayRecord := Some local_evening, local_recentRecords := [local_evening]\<rparr>"

definition rejecting :: "string \<Rightarrow> jsdate" where
  "rejecting text' = InvalidDate"

definition cached :: "stored_item \<Rightarrow> LocalStorage" where
  "cached item = empty_storage\<lparr>attendance_items := (\<lambda>k. None)(''attendance_1'' \<mapsto> item)\<rparr>"

text \<open>
  The record that the local loader makes of an array element without properties, such
  as the empty object or a number, at position 0.
\<close>

definition shapeless :: LocalRecord where
  "shapeless =
     \<lparr>element = Some 0, property = (\<lambda>k. None), local_checkInTime = InvalidDate,
      local_checkOutTime = None\<rparr>"

text \<open>A second row for the day of \<open>morning\<close>, and a later check-out of \<open>morning\<close>.\<close>

definition second_morning :: AttendanceRecord where
  "second_morning = morning\<lparr>record_id := ''r2'', check_in_time := eight + 3600000\<rparr>"


definition january :: "AttendanceRecord list" where
  "january =
     [morning,
      morning\<lparr>record_id := ''r0'', date := ''2023-12-30''\<rparr>,
      morning\<lparr>record_id := ''b1'', user_id := ''2''\<rparr>,
      evening\<lparr>record_id := ''r5'', date := ''2024-01-05''\<rparr>,
      morning\<lparr>record_id := ''r9'', date := ''2024-01-09''\<rparr>]"

definition first_week :: DateRange where
  "first_week = \<lparr>range_from = Some eight, range_to = Some (eight + 259200000)\<rparr>"

text \<open>The characters that \<open>show_nat\<close> produces.\<close>

definition plain_digit :: "char \<Rightarrow> bool" where
  "plain_digit c = (\<exists>d < 10. c = digit_char d)"

definition week :: "AttendanceRecord list" where
  "week =
     [evening,
      morning\<lparr>record_id := ''r3'', check_out_time := Some (eight + 9900000), date := ''2024-01-03''\<rparr>,
      morning\<lparr>record_id := ''r4'', date := ''2024-01-04''\<rparr>]"

definition january_report :: "AttendanceReport list" where
  "january_report =
     [\<lparr>report_id = ''r1'', report_date = ''2024-01-02'', checkInTime = ''08:00:00'',
       checkOutTime = Some ''17:00:00'', duration = ''9h 0m''\<rparr>,
      \<lparr>report_id = ''r4'', report_date = ''2024-01-04'', checkInTime = ''08:00:00'',
       checkOutTime = None, duration = ''In progress''\<rparr>]"

section \<open>Properties of the duration computation\<close>

lemma trunc_div_nonneg: "0 \<le> a \<Longrightarrow> 0 < b \<Longrightarrow> trunc_div a b = a div b"
  by (cases "a = 0") (simp_all add: trunc_div_def)

lemma js_rem_nonneg: "0 \<le> a \<Longrightarrow> 0 < b \<Longrightarrow> js_rem a b = a mod b"
  by (simp add: js_rem_def trunc_div_nonneg minus_mult_div_eq_mod)

lemma minutes_of_hour_remainder:
  fixes d :: int
  shows "(d mod 3600000) div 60000 = (d div 60000) mod 60"
proof -
  have "d mod (60000 * 60) = 60000 * (d div 60000 mod 60) + d mod 60000"
    by (rule zmod_zmult2_eq) simp
  then have "d mod 3600000 = (d div 60000 mod 60) * 60000 + d mod 60000"
    by simp
  then show ?thesis
    by simp
qed

lemma whole_minutes_split:
  fixes d :: int
  shows "60 * (d div 3600000) + (d div 60000) mod 60 = d div 60000"
proof -
  have "d div 3600000 = (d div 60000) div 60"
    by (simp add: div_mult2_eq [symmetric])
  then show ?thesis
    by simp
qed

lemma whole_minutes_bounds:
  fixes d :: int
  shows "60000 * (d div 60000) \<le> d \<and> d < 60000 * (d div 60000) + 60000"
  by presburger

lemma show_int_2: "show_int 2 = ''2''"
  by (simp add: show_int_def show_nat.simps digit_char_def)

lemma show_int_15: "show_int 15 = ''15''"
  by (simp add: show_int_def show_nat.simps digit_char_def)

text \<open>
  C3. Without a check-out time both duration computations return the sentinel
  \<^verbatim>\<open>In progress\<close>, which is no number. With a check-out time that is not before the
  check-in they return \<open>h\<close> hours and \<open>m\<close> minutes, where \<open>h\<close> is the number of whole
  hours in the difference and \<open>m\<close>, between 0 and 59, the number of whole minutes
  left: the difference lies in the minute that starts at \<open>60 h + m\<close> minutes, so the
  division truncates and does not round. A check-out 2 hours 15 minutes after the
  check-in gives exactly \<^verbatim>\<open>2h 15m\<close>.
\<close>

theorem duration_truncates:
  assumes "check_in \<le> out"
  shows "report_duration check_in None = ''In progress''
       \<and> calculateDuration check_in None = ''In progress''
       \<and> (let d = out - check_in; h = d div 3600000; m = (d div 60000) mod 60
          in report_duration check_in (Some out) = show_int h @ ''h '' @ show_int m @ ''m''
           \<and> calculateDuration check_in (Some out) = show_int h @ ''h '' @ show_int m @ ''m''
           \<and> 0 \<le> h \<and> 0 \<le> m \<and> m < 60
           \<and> 60000 * (60 * h + m) \<le> d \<and> d < 60000 * (60 * h + m) + 60000)
       \<and> report_duration check_in (Some (check_in + (2 * 3600000 + 15 * 60000))) = ''2h 15m''
       \<and> calculateDuration check_in (Some (check_in + (2 * 3600000 + 15 * 60000))) = ''2h 15m''"
proof -
  define d where "d = out - check_in"
  have d0: "0 \<le> d" using assms by (simp add: d_def)
  have rep: "report_duration check_in (Some out)
       = show_int (d div 3600000) @ ''h '' @ show_int ((d div 60000) mod 60) @ ''m''"
    using d0 by (simp add: report_duration_def differenceInHours_def differenceInMinutes_def
        Let_def trunc_div_nonneg js_rem_nonneg d_def)
  have dash: "calculateDuration check_in (Some out)
       = show_int (d div 3600000) @ ''h '' @ show_int ((d div 60000) mod 60) @ ''m''"
    using d0 by (simp add: calculateDuration_def Let_def js_rem_nonneg minutes_of_hour_remainder d_def)
  have h0: "0 \<le> d div 3600000" using d0 by simp
  have m: "0 \<le> (d div 60000) mod 60 \<and> (d div 60000) mod 60 < 60" by simp
  have b: "60000 * (60 * (d div 3600000) + (d div 60000) mod 60) \<le> d
         \<and> d < 60000 * (60 * (d div 3600000) + (d div 60000) mod 60) + 60000"
    using whole_minutes_bounds [of d] by (simp only: whole_minutes_split)
  have ex1: "report_duration check_in (Some (check_in + (2 * 3600000 + 15 * 60000))) = ''2h 15m''"
    by (simp add: report_duration_def differenceInHours_def differenceInMinutes_def
        trunc_div_def js_rem_def show_int_2 show_int_15)
  have ex2: "calculateDuration check_in (Some (check_in + (2 * 3600000 + 15 * 60000))) = ''2h 15m''"
    by (simp add: calculateDuration_def trunc_div_def js_rem_def show_int_2 show_int_15)
  show ?thesis
    using rep dash h0 m b ex1 ex2
    by (simp add: report_duration_def calculateDuration_def Let_def d_def)
qed

theorem duration_truncates_witness:
  "(1000::int) \<le> 10799999
   \<and> report_duration 1000 (Some 10799999) = ''2h 59m''
   \<and> calculateDuration 1000 (Some 10799999) = ''2h 59m''"
  using duration_truncates [of 1000 10799999]
  by (simp add: Let_def show_int_def show_nat.simps digit_char_def)

section \<open>Check-in and check-out, one call after another\<close>

lemma checkIn_present:
  "todayRecord s = Some r \<Longrightarrow> user s = Some u \<Longrightarrow>
   checkIn now resp s = (s\<lparr>isLoading := False\<rparr>, [Toast (Some Default) ''Already checked in''])"
  by (simp add: checkIn_def checkIn_begin_def)

lemma checkIn_no_user: "user s = None \<Longrightarrow> checkIn now resp s = (s, [])"
  by (simp add: checkIn_def checkIn_begin_def)


lemma checkOut_no_record: "todayRecord s = None \<Longrightarrow> checkOut now resp s = (s, [])"
  by (simp add: checkOut_def checkOut_begin_def split: option.splits)


text \<open>What one call can do to the records, case by case.\<close>

lemma checkIn_cases:
  "checkIn now resp s = (s, [])
   \<or> checkIn now resp s = (s\<lparr>isLoading := False\<rparr>, [Toast (Some Default) ''Already checked in''])
   \<or> (\<exists>u. user s = Some u \<and> todayRecord s = None
        \<and> checkIn now resp s =
            (s\<lparr>isLoading := False\<rparr>,
             [Insert (uid u) now (toISODate now), ConsoleError ''Check-in failed'',
              Toast (Some Destructive) ''Check-in failed'']))
   \<or> (\<exists>u d. user s = Some u \<and> todayRecord s = None \<and> error resp = None \<and> data resp = Some d
        \<and> checkIn now resp s =
            (s\<lparr>todayRecord := Some (formatRecord d),
               recentRecords := formatRecord d # recentRecords s, isLoading := False\<rparr>,
             [Insert (uid u) now (toISODate now), Toast None ''Checked in successfully'']))"
  by (auto simp: checkIn_def checkIn_begin_def checkIn_resume_def checkIn_failed_def Let_def
      split: option.splits)

lemma checkOut_cases:
  "checkOut now resp s = (s, [])
   \<or> checkOut now resp s = (s\<lparr>isLoading := False\<rparr>, [Toast (Some Default) ''Already checked out''])
   \<or> (\<exists>u r. user s = Some u \<and> todayRecord s = Some r \<and> check_out_time r = None
        \<and> checkOut now resp s =
            (s\<lparr>isLoading := False\<rparr>,
             [Update (record_id r) now, ConsoleError ''Check-out failed'',
              Toast (Some Destructive) ''Check-out failed'']))
   \<or> (\<exists>u r d t. user s = Some u \<and> todayRecord s = Some r \<and> check_out_time r = None
        \<and> error resp = None \<and> data resp = Some d
        \<and> checkOut now resp s =
            (s\<lparr>todayRecord := Some (d\<lparr>check_out_time := Some t\<rparr>),
               recentRecords :=
                 map (\<lambda>record. if record_id record = record_id d
                                then d\<lparr>check_out_time := Some t\<rparr> else record) (recentRecords s),
               isLoading := False\<rparr>,
             [Update (record_id r) now, Toast None ''Checked out successfully'']))"
  by (auto simp: checkOut_def checkOut_begin_def checkOut_resume_def checkOut_failed_def Let_def
      split: option.splits)

lemma created_by_simps:
  "created_by [] = 0"
  "created_by (es @ es') = created_by es + created_by es'"
  "created_by [Toast None ''Checked in successfully''] = 1"
  "created_by [Toast (Some v) t] = 0"
  "created_by (Insert a b c # es) = created_by es"
  "created_by (Update i d # es) = created_by es"
  "created_by (ConsoleError m # es) = created_by es"
  "created_by [Toast None ''Checked out successfully''] = 0"
  by (simp_all add: created_by_def)

lemma run_call_present:
  assumes "todayRecord s = Some r"
  shows "todayRecord (fst (run_call c s)) \<noteq> None
       \<and> length (recentRecords (fst (run_call c s))) = length (recentRecords s)
       \<and> created_by (snd (run_call c s)) = 0
       \<and> (\<forall>u t d. Insert u t d \<notin> set (snd (run_call c s)))"
proof (cases c)
  case (CheckIn now resp)
  show ?thesis
    using assms checkIn_cases [of now resp s] unfolding CheckIn
    by (auto simp: created_by_simps)
next
  case (CheckOut now resp)
  show ?thesis
    using assms checkOut_cases [of now resp s] unfolding CheckOut
    by (auto simp: created_by_simps)
qed

lemma run_calls_present:
  "todayRecord s = Some r \<Longrightarrow>
     todayRecord (fst (run_calls cs s)) \<noteq> None
   \<and> length (recentRecords (fst (run_calls cs s))) = length (recentRecords s)
   \<and> created_by (snd (run_calls cs s)) = 0
   \<and> (\<forall>u t d. Insert u t d \<notin> set (snd (run_calls cs s)))"
proof (induction cs arbitrary: s r)
  case Nil
  then show ?case by (simp add: created_by_simps)
next
  case (Cons c cs)
  obtain s1 es where c: "run_call c s = (s1, es)" by (cases "run_call c s")
  from run_call_present [OF Cons.prems, of c] c
  have s1: "todayRecord s1 \<noteq> None" "length (recentRecords s1) = length (recentRecords s)"
    "created_by es = 0" "\<forall>u t d. Insert u t d \<notin> set es"
    by simp_all
  then obtain r1 where r1: "todayRecord s1 = Some r1" by auto
  obtain s2 es2 where cs: "run_calls cs s1 = (s2, es2)" by (cases "run_calls cs s1")
  from Cons.IH [OF r1] cs
  have "todayRecord s2 \<noteq> None" "length (recentRecords s2) = length (recentRecords s1)"
    "created_by es2 = 0" "\<forall>u t d. Insert u t d \<notin> set es2"
    by simp_all
  with s1 c cs show ?case
    by (simp add: created_by_simps)
qed

lemma run_call_creates:
  "created_by (snd (run_call c s)) \<le> 1
   \<and> length (recentRecords (fst (run_call c s))) = length (recentRecords s) + created_by (snd (run_call c s))
   \<and> (created_by (snd (run_call c s)) = 1 \<longrightarrow> todayRecord s = None \<and> todayRecord (fst (run_call c s)) \<noteq> None)"
proof (cases c)
  case (CheckIn now resp)
  show ?thesis
    using checkIn_cases [of now resp s] unfolding CheckIn
    by (auto simp: created_by_simps)
next
  case (CheckOut now resp)
  show ?thesis
    using checkOut_cases [of now resp s] unfolding CheckOut
    by (auto simp: created_by_simps)
qed

lemma run_calls_creates:
  "created_by (snd (run_calls cs s)) \<le> 1
   \<and> length (recentRecords (fst (run_calls cs s))) = length (recentRecords s) + created_by (snd (run_calls cs s))"
proof (induction cs arbitrary: s)
  case Nil
  then show ?case by (simp add: created_by_simps)
next
  case (Cons c cs)
  obtain s1 es where c: "run_call c s = (s1, es)" by (cases "run_call c s")
  obtain s2 es2 where cs: "run_calls cs s1 = (s2, es2)" by (cases "run_calls cs s1")
  from run_call_creates [of c s] c
  have one: "created_by es \<le> 1" "length (recentRecords s1) = length (recentRecords s) + created_by es"
    "created_by es = 1 \<longrightarrow> todayRecord s1 \<noteq> None"
    by simp_all
  from Cons.IH [of s1] cs
  have rest: "created_by es2 \<le> 1" "length (recentRecords s2) = length (recentRecords s1) + created_by es2"
    by simp_all
  have "created_by es = 1 \<longrightarrow> created_by es2 = 0"
  proof
    assume "created_by es = 1"
    with one obtain r1 where "todayRecord s1 = Some r1" by auto
    from run_calls_present [OF this, of cs] cs show "created_by es2 = 0" by simp
  qed
  with one rest c cs show ?case
    by (auto simp: created_by_simps)
qed

lemma checkIn_local_present:
  "local_todayRecord l = Some lr \<Longrightarrow>
   checkIn_local now today quota l ls =
     (l, ls, if truthy (local_user l) then [Toast (Some Default) ''Already checked in''] else [],
      Returned)"
  by (simp add: checkIn_local_def)


lemma checkIn_local_length:
  "length (local_recentRecords (fst (checkIn_local now today quota l ls)))
     = length (local_recentRecords l)
       + (if truthy (local_user l) \<and> local_todayRecord l = None then 1 else 0)
   \<and> (local_todayRecord l \<noteq> None \<longrightarrow>
        local_todayRecord (fst (checkIn_local now today quota l ls)) \<noteq> None)
   \<and> (truthy (local_user l) \<longrightarrow>
        local_todayRecord (fst (checkIn_local now today quota l ls)) \<noteq> None)"
  by (auto simp: checkIn_local_def saveAttendanceRecords_def Let_def split: option.splits)

lemma checkOut_local_length:
  "length (local_recentRecords (fst (checkOut_local now quota l ls))) = length (local_recentRecords l)
   \<and> (local_todayRecord l \<noteq> None \<longrightarrow>
        local_todayRecord (fst (checkOut_local now quota l ls)) \<noteq> None)
   \<and> (local_todayRecord l = None \<longrightarrow>
        local_todayRecord (fst (checkOut_local now quota l ls)) = None)"
  by (auto simp: checkOut_local_def saveAttendanceRecords_def Let_def split: option.splits)

lemma run_local_call_length:
  "length (local_recentRecords (fst (fst (run_local_call c (l, ls)))))
     \<le> length (local_recentRecords l) + (if local_todayRecord l = None then 1 else 0)
   \<and> (local_todayRecord l \<noteq> None \<longrightarrow>
        local_todayRecord (fst (fst (run_local_call c (l, ls)))) \<noteq> None)
   \<and> (length (local_recentRecords (fst (fst (run_local_call c (l, ls)))))
          \<noteq> length (local_recentRecords l)
        \<longrightarrow> local_todayRecord (fst (fst (run_local_call c (l, ls)))) \<noteq> None)"
proof (cases c)
  case (LocalCheckIn now today quota)
  show ?thesis
    using checkIn_local_length [of now today quota l ls] unfolding LocalCheckIn
    by (auto split: prod.splits if_splits)
next
  case (LocalCheckOut now quota)
  show ?thesis
    using checkOut_local_length [of now quota l ls] unfolding LocalCheckOut
    by (auto split: prod.splits)
qed

lemma run_local_calls_length:
  "length (local_recentRecords (fst (fst (run_local_calls cs (l, ls)))))
     \<le> length (local_recentRecords l) + (if local_todayRecord l = None then 1 else 0)"
proof (induction cs arbitrary: l ls)
  case Nil
  then show ?case by simp
next
  case (Cons c cs)
  obtain l1 ls1 es where c: "run_local_call c (l, ls) = ((l1, ls1), es)"
    by (cases "run_local_call c (l, ls)") auto
  obtain st2 es2 where cs: "run_local_calls cs (l1, ls1) = (st2, es2)"
    by (cases "run_local_calls cs (l1, ls1)")
  from run_local_call_length [of c l ls] c
  have one: "length (local_recentRecords l1)
               \<le> length (local_recentRecords l) + (if local_todayRecord l = None then 1 else 0)"
    "local_todayRecord l \<noteq> None \<longrightarrow> local_todayRecord l1 \<noteq> None"
    "length (local_recentRecords l1) \<noteq> length (local_recentRecords l) \<longrightarrow> local_todayRecord l1 \<noteq> None"
    by simp_all
  from Cons.IH [of l1 ls1] cs
  have rest: "length (local_recentRecords (fst st2))
                \<le> length (local_recentRecords l1) + (if local_todayRecord l1 = None then 1 else 0)"
    by simp
  from one rest c cs show ?case
    by (auto split: if_splits)
qed

text \<open>
  C1, as stated, fails in its last part: the guard does not keep the records of a user
  and a day down to one. \<^verbatim>\<open>checkIn\<close> looks only at the \<open>todayRecord\<close> it holds in memory.
  A check-in at 8 o'clock creates a record. When the page is opened again and the load
  fails, the tracker holds no record for today, and a check-in an hour later sends a
  second insert for the same user and the same day; when the table accepts it, the
  tracker takes the second row for today's record.
\<close>

theorem checkIn_after_failed_load_inserts_again:
  "checkIn eight (accepted morning) logged_in
     = (checked_in, [Insert ''1'' eight ''2024-01-02'', Toast None ''Checked in successfully''])
   \<and> user_effect (eight + 3600000) (eight - 2588400000) refused refused
        (initial_tracker\<lparr>user := Some alice\<rparr>)
     = (logged_in,
        [SelectToday ''1'' ''2024-01-02'', ConsoleError ''Failed to load attendance records'',
         Toast (Some Destructive) ''Error loading attendance''])
   \<and> checkIn (eight + 3600000) (accepted second_morning) logged_in
     = (logged_in\<lparr>todayRecord := Some second_morning, recentRecords := [second_morning]\<rparr>,
        [Insert ''1'' (eight + 3600000) ''2024-01-02'', Toast None ''Checked in successfully''])
   \<and> user_id second_morning = user_id morning
   \<and> date second_morning = date morning
   \<and> record_id second_morning \<noteq> record_id morning"
proof -
  have d1: "toISODate eight = ''2024-01-02''" by code_simp
  have d2: "toISODate (eight + 3600000) = ''2024-01-02''" by code_simp
  have a: "checkIn eight (accepted morning) logged_in
     = (checked_in, [Insert ''1'' eight ''2024-01-02'', Toast None ''Checked in successfully''])"
    by (simp add: checkIn_def checkIn_begin_def checkIn_resume_def d1 logged_in_def checked_in_def
        alice_def accepted_def formatRecord_def morning_def Let_def)
  have b: "user_effect (eight + 3600000) (eight - 2588400000) refused refused
        (initial_tracker\<lparr>user := Some alice\<rparr>)
     = (logged_in,
        [SelectToday ''1'' ''2024-01-02'', ConsoleError ''Failed to load attendance records'',
         Toast (Some Destructive) ''Error loading attendance''])"
    by (simp add: user_effect_def loadAttendanceRecords_def load_failed_def d2 refused_def
        initial_tracker_def logged_in_def alice_def Let_def)
  have c: "checkIn (eight + 3600000) (accepted second_morning) logged_in
     = (logged_in\<lparr>todayRecord := Some second_morning, recentRecords := [second_morning]\<rparr>,
        [Insert ''1'' (eight + 3600000) ''2024-01-02'', Toast None ''Checked in successfully''])"
    by (simp add: checkIn_def checkIn_begin_def checkIn_resume_def d2 logged_in_def
        alice_def accepted_def formatRecord_def second_morning_def morning_def Let_def)
  have d: "user_id second_morning = user_id morning \<and> date second_morning = date morning
         \<and> record_id second_morning \<noteq> record_id morning"
    by (simp add: second_morning_def morning_def)
  show ?thesis using a b c d by simp
qed

text \<open>
  C1, amended. In every state that has a record for today, with or without a check-out
  time, \<^verbatim>\<open>checkIn\<close> changes neither \<open>todayRecord\<close> nor \<open>recentRecords\<close> and sends no
  request (the remote tracker only lowers its busy flag; the local tracker leaves
  state and storage as they are). With a user present it reports
  \<^verbatim>\<open>Already checked in\<close>; with no user, the precondition of the operation, it returns at
  once. What follows for the number of records is this: over a run of check-in and
  check-out calls, each finished before the next starts and with no load in between,
  a tracker that starts with a record for today creates none and sends no insert, and
  a tracker in any state creates at most one.
\<close>

theorem checkIn_again_changes_nothing:
  assumes "todayRecord s = Some r" and "local_todayRecord l = Some lr"
  shows "checkIn now resp s =
           (if user s = None then (s, [])
            else (s\<lparr>isLoading := False\<rparr>, [Toast (Some Default) ''Already checked in'']))
       \<and> todayRecord (fst (checkIn now resp s)) = todayRecord s
       \<and> recentRecords (fst (checkIn now resp s)) = recentRecords s
       \<and> checkIn_local now today quotaExceeded l ls =
           (l, ls,
            if truthy (local_user l) then [Toast (Some Default) ''Already checked in''] else [],
            Returned)
       \<and> created_by (snd (run_calls cs s)) = 0
       \<and> (\<forall>u t d. Insert u t d \<notin> set (snd (run_calls cs s)))
       \<and> length (recentRecords (fst (run_calls cs s))) = length (recentRecords s)
       \<and> length (local_recentRecords (fst (fst (run_local_calls lcs (l, ls)))))
           \<le> length (local_recentRecords l)
       \<and> created_by (snd (run_calls cs s')) \<le> 1
       \<and> length (recentRecords (fst (run_calls cs s'))) \<le> length (recentRecords s') + 1
       \<and> length (local_recentRecords (fst (fst (run_local_calls lcs (l', ls)))))
           \<le> length (local_recentRecords l') + 1"
proof -
  have a: "checkIn now resp s =
           (if user s = None then (s, [])
            else (s\<lparr>isLoading := False\<rparr>, [Toast (Some Default) ''Already checked in'']))"
    using assms(1) by (auto simp: checkIn_present checkIn_no_user)
  have b: "todayRecord (fst (checkIn now resp s)) = todayRecord s
         \<and> recentRecords (fst (checkIn now resp s)) = recentRecords s"
    by (simp add: a)
  have c: "length (local_recentRecords (fst (fst (run_local_calls lcs (l, ls)))))
             \<le> length (local_recentRecords l)"
    using run_local_calls_length [of lcs l ls] assms(2) by simp
  have d: "length (local_recentRecords (fst (fst (run_local_calls lcs (l', ls)))))
             \<le> length (local_recentRecords l') + 1"
    using run_local_calls_length [of lcs l' ls] by (simp split: if_splits)
  have e: "length (recentRecords (fst (run_calls cs s'))) \<le> length (recentRecords s') + 1"
    using run_calls_creates [of cs s'] by simp
  show ?thesis
    using a b c d e run_calls_present [OF assms(1), of cs] run_calls_creates [of cs s']
      checkIn_local_present [OF assms(2)]
    by simp
qed









lemma example_simps:
  "user checked_in = Some alice" "todayRecord checked_in = Some morning"
  "recentRecords checked_in = [morning]" "user logged_in = Some alice"
  "todayRecord logged_in = None" "recentRecords logged_in = []"
  "user checked_out = Some alice" "todayRecord checked_out = Some evening"
  "recentRecords checked_out = [evening]" "check_out_time evening = Some seventeen"
  "check_out_time morning = None"
  "data (accepted row) = Some row" "error (accepted row) = None"
  "data refused = None" "error refused = Some ''network error''"
  by (simp_all add: checked_in_def logged_in_def checked_out_def evening_def morning_def
      accepted_def refused_def)

lemma local_example_simps:
  "local_user local_checked_in = local_alice" "local_todayRecord local_checked_in = Some local_morning"
  "local_recentRecords local_checked_in = [local_morning]" "local_user local_logged_in = local_alice"
  "local_todayRecord local_logged_in = None" "local_recentRecords local_logged_in = []"
  "local_user local_checked_out = local_alice" "local_todayRecord local_checked_out = Some local_evening"
  "local_recentRecords local_checked_out = [local_evening]"
  "local_checkOutTime local_evening = Some (ValidDate seventeen)"
  "local_checkOutTime local_morning = None"
  "truthy local_alice" "truthy local_bob"
  "attendance_key local_alice = ''attendance_1''"
  by (simp_all add: local_checked_in_def local_logged_in_def local_checked_out_def
      local_evening_def local_morning_def initial_local_def local_alice_def local_bob_def
      truthy_def attendance_key_def properties_def property_text_def)

theorem checkIn_again_changes_nothing_witness:
  "todayRecord checked_in = Some morning
   \<and> local_todayRecord local_checked_in = Some local_morning
   \<and> checkIn seventeen (accepted evening) checked_in
       = (checked_in\<lparr>isLoading := False\<rparr>, [Toast (Some Default) ''Already checked in''])
   \<and> checkIn_local seventeen ''1/2/2024'' False local_checked_in empty_storage
       = (local_checked_in, empty_storage, [Toast (Some Default) ''Already checked in''], Returned)
   \<and> created_by (snd (run_calls [CheckIn seventeen (accepted evening), CheckIn (seventeen + 1) refused] checked_in)) = 0
   \<and> created_by (snd (run_calls [CheckIn seventeen (accepted evening), CheckIn (seventeen + 1) refused] logged_in)) \<le> 1"
  using checkIn_again_changes_nothing [where s = checked_in and r = morning and now = seventeen
      and resp = "accepted evening" and today = "''1/2/2024''" and quotaExceeded = False
      and l = local_checked_in and lr = local_morning
      and ls = empty_storage and s' = logged_in and lcs = "[]"
      and cs = "[CheckIn seventeen (accepted evening), CheckIn (seventeen + 1) refused]"]
  by (simp add: example_simps local_example_simps del: run_calls.simps)


section \<open>Failures of the remote table\<close>

lemma checkIn_begin_keeps_records:
  "todayRecord (fst (checkIn_begin now s)) = todayRecord s
   \<and> recentRecords (fst (checkIn_begin now s)) = recentRecords s"
  by (simp add: checkIn_begin_def split: option.splits)

lemma checkOut_begin_keeps_records:
  "todayRecord (fst (checkOut_begin now s)) = todayRecord s
   \<and> recentRecords (fst (checkOut_begin now s)) = recentRecords s"
  by (simp add: checkOut_begin_def split: option.splits)

lemma checkIn_refused:
  assumes "error resp \<noteq> None \<or> data resp = None"
  shows "todayRecord (fst (checkIn now resp s)) = todayRecord s
       \<and> recentRecords (fst (checkIn now resp s)) = recentRecords s
       \<and> (user s \<noteq> None \<and> todayRecord s = None \<longrightarrow>
            snd (checkIn now resp s) =
              [Insert (uid (the (user s))) now (toISODate now), ConsoleError ''Check-in failed'',
               Toast (Some Destructive) ''Check-in failed''])"
  using assms
  by (auto simp: checkIn_def checkIn_begin_def checkIn_resume_def checkIn_failed_def
      split: option.splits)

lemma checkOut_refused:
  assumes "error resp \<noteq> None \<or> data resp = None"
  shows "todayRecord (fst (checkOut now resp s)) = todayRecord s
       \<and> recentRecords (fst (checkOut now resp s)) = recentRecords s
       \<and> (user s \<noteq> None \<and> isCheckedIn s \<longrightarrow>
            snd (checkOut now resp s) =
              [Update (record_id (the (todayRecord s))) now, ConsoleError ''Check-out failed'',
               Toast (Some Destructive) ''Check-out failed''])"
  using assms
  by (auto simp: checkOut_def checkOut_begin_def checkOut_resume_def checkOut_failed_def
      isCheckedIn_def split: option.splits)

text \<open>
  C5. When the remote table answers a check-in or a check-out with an error, the call
  leaves \<open>todayRecord\<close> and \<open>recentRecords\<close> as they were, in every state. When the
  request had been sent (a user is present and, for a check-in, there is no record for
  today; for a check-out, there is one without a check-out time) the call logs the
  failure and shows the destructive notice \<^verbatim>\<open>Check-in failed\<close> or \<^verbatim>\<open>Check-out failed\<close>.
  Nothing is changed before the answer either: the part of a call that runs before the
  request is answered leaves both cells alone.
\<close>

theorem persistence_error_leaves_state:
  assumes "error resp \<noteq> None"
  shows "todayRecord (fst (checkIn now resp s)) = todayRecord s
       \<and> recentRecords (fst (checkIn now resp s)) = recentRecords s
       \<and> todayRecord (fst (checkOut now resp s)) = todayRecord s
       \<and> recentRecords (fst (checkOut now resp s)) = recentRecords s
       \<and> (user s \<noteq> None \<and> todayRecord s = None \<longrightarrow>
            snd (checkIn now resp s) =
              [Insert (uid (the (user s))) now (toISODate now), ConsoleError ''Check-in failed'',
               Toast (Some Destructive) ''Check-in failed''])
       \<and> (user s \<noteq> None \<and> isCheckedIn s \<longrightarrow>
            snd (checkOut now resp s) =
              [Update (record_id (the (todayRecord s))) now, ConsoleError ''Check-out failed'',
               Toast (Some Destructive) ''Check-out failed''])
       \<and> todayRecord (fst (checkIn_begin now s)) = todayRecord s
       \<and> recentRecords (fst (checkIn_begin now s)) = recentRecords s
       \<and> todayRecord (fst (checkOut_begin now s)) = todayRecord s
       \<and> recentRecords (fst (checkOut_begin now s)) = recentRecords s"
  using assms checkIn_refused [of resp now s] checkOut_refused [of resp now s]
    checkIn_begin_keeps_records [of now s] checkOut_begin_keeps_records [of now s]
  by simp

theorem persistence_error_leaves_state_witness:
  "error (refused :: AttendanceRecord Response) \<noteq> None
   \<and> user logged_in \<noteq> None \<and> todayRecord logged_in = None
   \<and> checkIn eight refused logged_in =
       (logged_in, [Insert ''1'' eight ''2024-01-02'', ConsoleError ''Check-in failed'',
                    Toast (Some Destructive) ''Check-in failed''])
   \<and> user checked_in \<noteq> None \<and> isCheckedIn checked_in
   \<and> todayRecord (fst (checkOut seventeen refused checked_in)) = Some morning
   \<and> recentRecords (fst (checkOut seventeen refused checked_in)) = [morning]
   \<and> snd (checkOut seventeen refused checked_in) =
       [Update ''r1'' seventeen, ConsoleError ''Check-out failed'',
        Toast (Some Destructive) ''Check-out failed'']"
proof -
  have d: "toISODate eight = ''2024-01-02''"
    by code_simp
  have l: "logged_in\<lparr>isLoading := False\<rparr> = logged_in"
    by (simp add: logged_in_def)
  have e: "error (refused :: AttendanceRecord Response) \<noteq> None"
    by (simp add: refused_def)
  have a: "fst (checkIn eight refused logged_in) = logged_in"
    by (simp add: checkIn_def checkIn_begin_def checkIn_resume_def checkIn_failed_def
        example_simps l)
  show ?thesis
    using persistence_error_leaves_state [OF e, of seventeen checked_in]
      persistence_error_leaves_state [OF e, of eight logged_in] a e d
    by (simp add: example_simps isCheckedIn_def morning_def alice_def prod_eq_iff)
qed

section \<open>Change of identity and loading\<close>

lemma loadAttendanceRecords_steps:
  "loadAttendanceRecords now thirtyDaysAgo todayResp recentResp s =
     (case load_begin now s of
        (s1, es1, None) \<Rightarrow> (s1, es1)
      | (s1, es1, Some u) \<Rightarrow>
          (case load_today u thirtyDaysAgo todayResp s1 of
             (s2, es2, False) \<Rightarrow> (s2, es1 @ es2)
           | (s2, es2, True) \<Rightarrow>
               (case load_recent recentResp s2 of (s3, es3) \<Rightarrow> (s3, es1 @ es2 @ es3))))"
  by (simp add: loadAttendanceRecords_def load_begin_def load_today_def load_recent_def
      load_failed_def Let_def split: option.splits)

lemma fetchAttendanceByDateRange_steps:
  "fetchAttendanceByDateRange dateRange resp s =
     (case fetch_begin dateRange s of
        (s1, es1, False) \<Rightarrow> ([], s1, es1)
      | (s1, es1, True) \<Rightarrow>
          (case fetch_resume resp s1 of (rows, s2, es2) \<Rightarrow> (rows, s2, es1 @ es2)))"
  by (simp add: fetchAttendanceByDateRange_def fetch_begin_def fetch_resume_def Let_def
      split: option.splits)







lemma convert_none: "convert parse i e = None \<longleftrightarrow> e = JNull"
  by (simp add: convert_def)

lemma convert_all_none: "convert_all parse i es = None \<longleftrightarrow> JNull \<in> set es"
  by (induction es arbitrary: i) (auto simp: convert_def split: option.splits if_splits)

lemma convert_all_length: "convert_all parse i es = Some rs \<Longrightarrow> length rs = length es"
  by (induction es arbitrary: i rs) (auto split: option.splits)

lemma insert_sorted_length: "length (insert_sorted a bs) = Suc (length bs)"
  by (induction bs) simp_all

lemma sort_newest_first_length: "length (sort_newest_first rs) = length rs"
  by (induction rs) (simp_all add: sort_newest_first_def insert_sorted_length)

lemma parse_records_throws:
  "parse_records parse Unparseable = None"
  "\<forall>es. v \<noteq> JArr es \<Longrightarrow> parse_records parse (Parsed v) = None"
  "JNull \<in> set es \<Longrightarrow> parse_records parse (Parsed (JArr es)) = None"
  by (auto simp: parse_records_def convert_all_none split: json.splits)

lemma loadAttendanceRecords_local_throws:
  assumes "truthy (local_user l)"
    and "attendance_items ls (attendance_key (local_user l)) = Some item"
    and "item \<noteq> EmptyText" and "parse_records parse item = None"
  shows "loadAttendanceRecords_local parse today ls l
           = (l, [ConsoleError ''Failed to load attendance records''])"
  using assms by (simp add: loadAttendanceRecords_local_def)

lemma loadAttendanceRecords_local_loads:
  assumes "truthy (local_user l)"
    and "attendance_items ls (attendance_key (local_user l)) = Some (Parsed (JArr es))"
    and "JNull \<notin> set es"
  shows "snd (loadAttendanceRecords_local parse today ls l) = []
       \<and> length (local_recentRecords (fst (loadAttendanceRecords_local parse today ls l)))
           = length es"
proof -
  from assms(3) obtain rs where rs: "convert_all parse 0 es = Some rs"
    using convert_all_none [of parse 0 es] by (cases "convert_all parse 0 es") auto
  then have "length rs = length es" by (rule convert_all_length)
  with rs assms(1,2) show ?thesis
    by (simp add: loadAttendanceRecords_local_def parse_records_def sort_newest_first_length)
qed

text \<open>
  C8, as stated, fails. The loader has no check of the shape of what it reads: only a
  text that does not parse, a value that is no array, and an array with an element
  \<^verbatim>\<open>null\<close> make it throw. An array of anything else is loaded, and nothing is logged:
  the empty object becomes a record without identifier and with an invalid check-in
  date, and so does the number 1. The session store takes the number 5 for the user.
  And when the loader does throw, it leaves the state as it is, which need not be
  empty: a tracker that holds a record keeps it.
\<close>

theorem shapeless_cache_is_loaded:
  "loadAttendanceRecords_local rejecting ''1/2/2024'' (cached (Parsed (JArr [JObj []])))
     local_logged_in
     = (local_logged_in
          \<lparr>local_todayRecord := None, local_recentRecords := [shapeless]\<rparr>,
        [])
   \<and> loadAttendanceRecords_local rejecting ''1/2/2024'' (cached (Parsed (JArr [JNum 1])))
     local_logged_in
     = (local_logged_in
          \<lparr>local_todayRecord := None, local_recentRecords := [shapeless]\<rparr>,
        [])
   \<and> restore_user (empty_storage\<lparr>user_item := Some (ParsedUser (JNum 5))\<rparr>) JNull
     = (JNum 5, empty_storage\<lparr>user_item := Some (ParsedUser (JNum 5))\<rparr>, [])
   \<and> loadAttendanceRecords_local rejecting ''1/2/2024'' (cached Unparseable) local_checked_in
     = (local_checked_in, [ConsoleError ''Failed to load attendance records''])
   \<and> local_todayRecord local_checked_in = Some local_morning
   \<and> local_recentRecords local_checked_in = [local_morning]
   \<and> property shapeless ''id'' = None
   \<and> local_checkInTime shapeless = InvalidDate"
proof -
  have p1: "(properties (JObj []))(''checkInTime'' := None, ''checkOutTime'' := None) = (\<lambda>k. None)"
    by (rule ext) (simp add: properties_def)
  have p2: "(properties (JNum 1))(''checkInTime'' := None, ''checkOutTime'' := None) = (\<lambda>k. None)"
    by (rule ext) (simp add: properties_def)
  have q1: "properties (JObj []) k = None" for k
    by (simp add: properties_def)
  have q2: "properties (JNum 1) k = None" for k
    by (simp add: properties_def)
  have c1: "convert rejecting 0 (JObj [])
     = Some shapeless"
    by (simp add: convert_def p1 q1 new_Date_def truthy_property_def shapeless_def)
  have c2: "convert rejecting 0 (JNum 1)
     = Some shapeless"
    by (simp add: convert_def p2 q2 new_Date_def truthy_property_def shapeless_def)
  have a: "loadAttendanceRecords_local rejecting ''1/2/2024'' (cached (Parsed (JArr [JObj []])))
     local_logged_in
     = (local_logged_in
          \<lparr>local_todayRecord := None, local_recentRecords := [shapeless]\<rparr>,
        [])"
    by (simp add: loadAttendanceRecords_local_def local_example_simps cached_def
        parse_records_def c1 sort_newest_first_def shapeless_def)
  have b: "loadAttendanceRecords_local rejecting ''1/2/2024'' (cached (Parsed (JArr [JNum 1])))
     local_logged_in
     = (local_logged_in
          \<lparr>local_todayRecord := None, local_recentRecords := [shapeless]\<rparr>,
        [])"
    by (simp add: loadAttendanceRecords_local_def local_example_simps cached_def
        parse_records_def c2 sort_newest_first_def shapeless_def)
  have c: "restore_user (empty_storage\<lparr>user_item := Some (ParsedUser (JNum 5))\<rparr>) JNull
     = (JNum 5, empty_storage\<lparr>user_item := Some (ParsedUser (JNum 5))\<rparr>, [])"
    by (simp add: restore_user_def)
  have d: "loadAttendanceRecords_local rejecting ''1/2/2024'' (cached Unparseable) local_checked_in
     = (local_checked_in, [ConsoleError ''Failed to load attendance records''])"
    by (simp add: loadAttendanceRecords_local_def local_example_simps cached_def
        parse_records_def)
  show ?thesis
    using a b c d by (simp add: local_example_simps shapeless_def)
qed

text \<open>
  C8, amended. When the text cached for a user does not parse, or parses to something
  that is no array, or to an array with an element \<^verbatim>\<open>null\<close>, loading logs the error,
  returns normally and leaves the state of the tracker as it was; on mount and after
  a reset that is the empty state. An empty text is taken for no cache: the state
  stays as it was and nothing is logged. The session store logs and removes a cached
  user that does not parse, and leaves the identity as it was.
\<close>

theorem malformed_cache_is_ignored:
  assumes "truthy (local_user l)"
    and "attendance_items ls (attendance_key (local_user l)) = Some item"
  shows "(item = Unparseable \<or> (\<exists>v. item = Parsed v \<and> (\<forall>es. v \<noteq> JArr es))
            \<or> (\<exists>es. item = Parsed (JArr es) \<and> JNull \<in> set es) \<longrightarrow>
            loadAttendanceRecords_local parse today ls l
              = (l, [ConsoleError ''Failed to load attendance records''])
          \<and> user_effect_local parse today ls l
              = (l, [ConsoleError ''Failed to load attendance records'']))
       \<and> (item = EmptyText \<longrightarrow> loadAttendanceRecords_local parse today ls l = (l, []))
       \<and> (user_item ls' = Some UnparseableUser \<longrightarrow>
            restore_user ls' current
              = (current, ls'\<lparr>user_item := None\<rparr>,
                 [ConsoleError ''Failed to parse user from localStorage'']))"
proof -
  have a: "item = Unparseable \<or> (\<exists>v. item = Parsed v \<and> (\<forall>es. v \<noteq> JArr es))
            \<or> (\<exists>es. item = Parsed (JArr es) \<and> JNull \<in> set es) \<longrightarrow>
            loadAttendanceRecords_local parse today ls l
              = (l, [ConsoleError ''Failed to load attendance records''])
          \<and> user_effect_local parse today ls l
              = (l, [ConsoleError ''Failed to load attendance records''])"
  proof
    assume h: "item = Unparseable \<or> (\<exists>v. item = Parsed v \<and> (\<forall>es. v \<noteq> JArr es))
            \<or> (\<exists>es. item = Parsed (JArr es) \<and> JNull \<in> set es)"
    then have n: "item \<noteq> EmptyText" and p: "parse_records parse item = None"
      using parse_records_throws [where parse = parse] by auto
    from loadAttendanceRecords_local_throws [OF assms n p]
    show "loadAttendanceRecords_local parse today ls l
              = (l, [ConsoleError ''Failed to load attendance records''])
          \<and> user_effect_local parse today ls l
              = (l, [ConsoleError ''Failed to load attendance records''])"
      using assms(1) by (simp add: user_effect_local_def)
  qed
  have b: "item = EmptyText \<longrightarrow> loadAttendanceRecords_local parse today ls l = (l, [])"
    using assms by (simp add: loadAttendanceRecords_local_def)
  have d: "user_item ls' = Some UnparseableUser \<longrightarrow>
            restore_user ls' current
              = (current, ls'\<lparr>user_item := None\<rparr>,
                 [ConsoleError ''Failed to parse user from localStorage''])"
    by (simp add: restore_user_def)
  show ?thesis
    using a b d by blast
qed

theorem malformed_cache_is_ignored_witness:
  "truthy (local_user local_logged_in)
   \<and> attendance_items (cached (Parsed (JArr [JObj [], JNull]))) (attendance_key (local_user local_logged_in))
       = Some (Parsed (JArr [JObj [], JNull]))
   \<and> JNull \<in> set [JObj [], JNull]
   \<and> loadAttendanceRecords_local rejecting ''1/2/2024'' (cached (Parsed (JArr [JObj [], JNull])))
        local_logged_in
       = (local_logged_in, [ConsoleError ''Failed to load attendance records''])
   \<and> attendance_items (cached (Parsed (JStr ''records''))) (attendance_key (local_user local_logged_in))
       = Some (Parsed (JStr ''records''))
   \<and> loadAttendanceRecords_local rejecting ''1/2/2024'' (cached (Parsed (JStr ''records'')))
        local_logged_in
       = (local_logged_in, [ConsoleError ''Failed to load attendance records''])
   \<and> attendance_items (cached Unparseable) (attendance_key (local_user local_logged_in))
       = Some Unparseable
   \<and> user_effect_local rejecting ''1/2/2024'' (cached Unparseable) local_logged_in
       = (local_logged_in, [ConsoleError ''Failed to load attendance records''])
   \<and> local_todayRecord local_logged_in = None \<and> local_recentRecords local_logged_in = []
   \<and> attendance_items (cached EmptyText) (attendance_key (local_user local_logged_in))
       = Some EmptyText
   \<and> loadAttendanceRecords_local rejecting ''1/2/2024'' (cached EmptyText) local_logged_in
       = (local_logged_in, [])
   \<and> user_item (empty_storage\<lparr>user_item := Some UnparseableUser\<rparr>) = Some UnparseableUser
   \<and> restore_user (empty_storage\<lparr>user_item := Some UnparseableUser\<rparr>) JNull
       = (JNull, empty_storage, [ConsoleError ''Failed to parse user from localStorage''])"
proof -
  have t: "truthy (local_user local_logged_in)"
    by (simp add: local_example_simps)
  have k: "attendance_items (cached item) (attendance_key (local_user local_logged_in)) = Some item"
    for item
    by (simp add: cached_def local_example_simps)
  have e: "empty_storage\<lparr>user_item := Some UnparseableUser, user_item := None\<rparr> = empty_storage"
    by (simp add: empty_storage_def)
  show ?thesis
    using t k e
      malformed_cache_is_ignored [where l = local_logged_in
        and ls = "cached (Parsed (JArr [JObj [], JNull]))" and item = "Parsed (JArr [JObj [], JNull])"
        and parse = rejecting and today = "''1/2/2024''"
        and ls' = "empty_storage\<lparr>user_item := Some UnparseableUser\<rparr>" and current = JNull, OF t k]
      malformed_cache_is_ignored [where l = local_logged_in
        and ls = "cached (Parsed (JStr ''records''))" and item = "Parsed (JStr ''records'')"
        and parse = rejecting and today = "''1/2/2024''"
        and ls' = empty_storage and current = JNull, OF t k]
      malformed_cache_is_ignored [where l = local_logged_in
        and ls = "cached Unparseable" and item = Unparseable
        and parse = rejecting and today = "''1/2/2024''"
        and ls' = empty_storage and current = JNull, OF t k]
      malformed_cache_is_ignored [where l = local_logged_in
        and ls = "cached EmptyText" and item = EmptyText
        and parse = rejecting and today = "''1/2/2024''"
        and ls' = empty_storage and current = JNull, OF t k]
    by (simp add: local_example_simps)
qed

section \<open>The date-range query answered by the table\<close>

lemma formatRecord_same: "formatRecord d = d"
  by (simp add: formatRecord_def split: option.splits)

lemma map_formatRecord: "map formatRecord rows = rows"
  by (induction rows) (simp_all add: formatRecord_same)

lemma sorted_desc_rev_sort_key:
  "sorted_wrt (\<lambda>a b. f b \<le> f a) (rev (sort_key f xs))"
proof -
  have "sorted (map f (sort_key f xs))" by simp
  then have "sorted_wrt (\<lambda>a b. f a \<le> f b) (sort_key f xs)"
    by (simp add: sorted_map)
  then show ?thesis
    by (simp add: sorted_wrt_rev)
qed

text \<open>
  C4. Without a user, a start or an end of the range, \<^verbatim>\<open>fetchAttendanceByDateRange\<close>
  returns the empty list, sends no query and reports nothing. Otherwise it asks the
  remote table for the user's rows between the day keys of the two ends and returns
  what the table answers: exactly the rows of the table that belong to the user and
  whose day key lies between the two keys, both included, by descending day key. When
  the table answers with an error instead, the result is empty and a notice is shown.
\<close>

theorem fetch_by_date_range:
  "(user s = None \<or> range_from dateRange = None \<or> range_to dateRange = None \<longrightarrow>
      fetchAttendanceByDateRange dateRange resp s = ([], s, []))
   \<and> (user s = Some u \<and> range_from dateRange = Some f \<and> range_to dateRange = Some t
        \<and> resp = answer_range table (SelectRange (uid u) (toISODate f) (toISODate t)) \<longrightarrow>
        mset (fst (fetchAttendanceByDateRange dateRange resp s))
          = mset (filter (in_range (uid u) (toISODate f) (toISODate t)) table)
      \<and> sorted_wrt (\<lambda>a b. date b \<le> date a) (fst (fetchAttendanceByDateRange dateRange resp s))
      \<and> snd (fetchAttendanceByDateRange dateRange resp s)
          = (s\<lparr>isLoading := False\<rparr>, [SelectRange (uid u) (toISODate f) (toISODate t)]))
   \<and> (user s = Some u \<and> range_from dateRange = Some f \<and> range_to dateRange = Some t
        \<and> error resp \<noteq> None \<longrightarrow>
        fetchAttendanceByDateRange dateRange resp s
          = ([], s\<lparr>isLoading := False\<rparr>,
             [SelectRange (uid u) (toISODate f) (toISODate t),
              ConsoleError ''Failed to fetch attendance by date range'',
              Toast (Some Destructive) ''Error loading attendance'']))"
proof -
  have a: "user s = None \<or> range_from dateRange = None \<or> range_to dateRange = None \<longrightarrow>
      fetchAttendanceByDateRange dateRange resp s = ([], s, [])"
    by (auto simp: fetchAttendanceByDateRange_def split: option.splits)
  have b: "fetchAttendanceByDateRange dateRange
             (answer_range table (SelectRange (uid u) (toISODate f) (toISODate t))) s
           = (rev (sort_key date (filter (in_range (uid u) (toISODate f) (toISODate t)) table)),
              s\<lparr>isLoading := False\<rparr>, [SelectRange (uid u) (toISODate f) (toISODate t)])"
    if "user s = Some u" "range_from dateRange = Some f" "range_to dateRange = Some t"
    using that
    by (simp add: fetchAttendanceByDateRange_def answer_range_def Let_def map_formatRecord)
  have c: "user s = Some u \<and> range_from dateRange = Some f \<and> range_to dateRange = Some t
        \<and> error resp \<noteq> None \<longrightarrow>
        fetchAttendanceByDateRange dateRange resp s
          = ([], s\<lparr>isLoading := False\<rparr>,
             [SelectRange (uid u) (toISODate f) (toISODate t),
              ConsoleError ''Failed to fetch attendance by date range'',
              Toast (Some Destructive) ''Error loading attendance''])"
    by (auto simp: fetchAttendanceByDateRange_def Let_def)
  show ?thesis
    using a b c by (auto simp: sorted_desc_rev_sort_key)
qed

theorem fetch_by_date_range_witness:
  "user logged_in = Some alice \<and> range_from first_week = Some eight
   \<and> range_to first_week = Some (eight + 259200000)
   \<and> fetchAttendanceByDateRange first_week
        (answer_range january (SelectRange ''1'' ''2024-01-02'' ''2024-01-05'')) logged_in
       = ([evening\<lparr>record_id := ''r5'', date := ''2024-01-05''\<rparr>, morning], logged_in,
          [SelectRange ''1'' ''2024-01-02'' ''2024-01-05''])
   \<and> range_from (first_week\<lparr>range_to := None\<rparr>) = Some eight
   \<and> range_to (first_week\<lparr>range_to := None\<rparr>) = None
   \<and> fetchAttendanceByDateRange (first_week\<lparr>range_to := None\<rparr>) refused logged_in = ([], logged_in, [])"
proof -
  have d1: "toISODate eight = ''2024-01-02''" by code_simp
  have d2: "toISODate (eight + 259200000) = ''2024-01-05''" by code_simp
  have u: "uid alice = ''1''" by (simp add: alice_def)
  have l: "logged_in\<lparr>isLoading := False\<rparr> = logged_in" by (simp add: logged_in_def)
  have f: "filter (in_range ''1'' ''2024-01-02'' ''2024-01-05'') january
             = [morning, evening\<lparr>record_id := ''r5'', date := ''2024-01-05''\<rparr>]"
    by (simp add: january_def in_range_def morning_def evening_def)
  have s: "rev (sort_key date [morning, evening\<lparr>record_id := ''r5'', date := ''2024-01-05''\<rparr>])
             = [evening\<lparr>record_id := ''r5'', date := ''2024-01-05''\<rparr>, morning]"
    by (simp add: morning_def evening_def)
  have r: "fst (fetchAttendanceByDateRange first_week
        (answer_range january (SelectRange ''1'' ''2024-01-02'' ''2024-01-05'')) logged_in)
       = [evening\<lparr>record_id := ''r5'', date := ''2024-01-05''\<rparr>, morning]"
    by (simp add: fetchAttendanceByDateRange_def first_week_def example_simps answer_range_def
        Let_def f map_formatRecord formatRecord_same morning_def evening_def)
  show ?thesis
    using r
      fetch_by_date_range [where s = logged_in and dateRange = first_week and u = alice
        and f = eight and t = "eight + 259200000" and table = january
        and resp = "answer_range january (SelectRange ''1'' ''2024-01-02'' ''2024-01-05'')"]
      fetch_by_date_range [where s = logged_in and dateRange = "first_week\<lparr>range_to := None\<rparr>"
        and resp = refused]
    by (simp add: example_simps first_week_def d1 d2 u l prod_eq_iff)
qed

section \<open>Calls in flight\<close>

lemma checkIn_begin_in_flight:
  "snd (snd (checkIn_begin now s)) \<noteq> None \<Longrightarrow> isLoading (fst (checkIn_begin now s))"
  by (auto simp: checkIn_begin_def split: option.splits)

lemma checkOut_begin_in_flight:
  "snd (snd (checkOut_begin now s)) \<noteq> None \<Longrightarrow> isLoading (fst (checkOut_begin now s))"
  by (auto simp: checkOut_begin_def split: option.splits)

lemma calls_simps:
  "calls (s, []) = []"
  "calls (s, ps @ qs) = calls (s', ps) @ calls (s', qs)"
  "calls (s, [PendingCheckIn c]) = [PendingCheckIn c]"
  "calls (s, [PendingCheckOut c]) = [PendingCheckOut c]"
  "calls (s, [PendingFetch]) = []"
  "calls (s, ps) = calls (s', ps)"
  by (simp_all add: calls_def is_call_def)

lemma serial_idle: "serial (s, ps) \<Longrightarrow> \<not> isLoading s \<Longrightarrow> calls (s, ps) = []"
  by (auto simp: serial_def)

lemma serial_start_checkIn:
  assumes "serial (s, ps)" and "calls (s, ps) = []"
  shows "serial (start_checkIn now (s, ps))"
proof (cases "checkIn_begin now s")
  case (fields s1 es captured)
  show ?thesis
  proof (cases captured)
    case None
    with fields assms show ?thesis
      by (simp add: serial_def start_checkIn_def calls_def)
  next
    case (Some c)
    with fields checkIn_begin_in_flight [of now s] have "isLoading s1" by simp
    with fields Some assms show ?thesis
      by (simp add: serial_def start_checkIn_def calls_def is_call_def)
  qed
qed

lemma serial_start_checkOut:
  assumes "serial (s, ps)" and "calls (s, ps) = []"
  shows "serial (start_checkOut now (s, ps))"
proof (cases "checkOut_begin now s")
  case (fields s1 es captured)
  show ?thesis
  proof (cases captured)
    case None
    with fields assms show ?thesis
      by (simp add: serial_def start_checkOut_def calls_def)
  next
    case (Some c)
    with fields checkOut_begin_in_flight [of now s] have "isLoading s1" by simp
    with fields Some assms show ?thesis
      by (simp add: serial_def start_checkOut_def calls_def is_call_def)
  qed
qed

lemma serial_start_fetch:
  assumes "serial (s, ps)"
  shows "serial (start_fetch dateRange (s, ps))"
  using assms
  by (auto simp: serial_def start_fetch_def fetch_begin_def calls_def is_call_def
      split: option.splits)

lemma one_call_removed:
  assumes "i < length ps" and "is_call (ps ! i)" and "length (filter is_call ps) \<le> 1"
  shows "filter is_call (take i ps @ drop (Suc i) ps) = []"
proof -
  have "ps = take i ps @ ps ! i # drop (Suc i) ps"
    using assms(1) by (simp add: id_take_nth_drop)
  then have "filter is_call ps
      = filter is_call (take i ps) @ ps ! i # filter is_call (drop (Suc i) ps)"
    using assms(2) by (metis filter.simps(2) filter_append)
  with assms(3) show ?thesis by simp
qed

lemma serial_resume:
  assumes "serial (s, ps)"
  shows "serial (resume i resp (s, ps))"
proof (cases "i < length ps")
  case False
  with assms show ?thesis by (simp add: resume_def)
next
  case True
  from assms have all: "list_all (\<lambda>p. is_call p \<or> p = PendingFetch) ps"
    and one: "length (filter is_call ps) \<le> 1"
    by (simp_all add: serial_def calls_def)
  from all True have here: "is_call (ps ! i) \<or> ps ! i = PendingFetch"
    by (simp add: list_all_length)
  have rest: "list_all (\<lambda>p. is_call p \<or> p = PendingFetch) (take i ps @ drop (Suc i) ps)"
    using all by (auto simp: list_all_iff dest: in_set_takeD in_set_dropD)
  show ?thesis
  proof (cases "ps ! i")
    case (PendingCheckIn c)
    then have "is_call (ps ! i)" by (simp add: is_call_def)
    from one_call_removed [OF True this one] PendingCheckIn True rest show ?thesis
      by (simp add: resume_def serial_def calls_def)
  next
    case (PendingCheckOut c)
    then have "is_call (ps ! i)" by (simp add: is_call_def)
    from one_call_removed [OF True this one] PendingCheckOut True rest show ?thesis
      by (simp add: resume_def serial_def calls_def)
  next
    case (PendingToday u d)
    with here show ?thesis by (simp add: is_call_def)
  next
    case PendingRecent
    with True assms show ?thesis by (simp add: resume_def)
  next
    case PendingFetch
    with True assms show ?thesis by (simp add: resume_def)
  qed
qed

lemma serial_dashboard_step:
  assumes "serial st" and "no_completion e"
  shows "serial (dashboard_step e st)"
proof -
  obtain s ps where st: "st = (s, ps)" by (cases st)
  show ?thesis
  proof (cases e)
    case (ClickCheckIn now)
    show ?thesis
    proof (cases "checkIn_disabled s")
      case True
      with assms st ClickCheckIn show ?thesis by simp
    next
      case False
      then have "\<not> isLoading s" by (simp add: checkIn_disabled_def)
      with assms st have "calls (s, ps) = []" by (auto dest: serial_idle)
      with assms st False ClickCheckIn show ?thesis
        by (simp add: serial_start_checkIn)
    qed
  next
    case (ClickCheckOut now)
    show ?thesis
    proof (cases "checkOut_disabled s")
      case True
      with assms st ClickCheckOut show ?thesis by simp
    next
      case False
      then have "\<not> isLoading s" by (simp add: checkOut_disabled_def)
      with assms st have "calls (s, ps) = []" by (auto dest: serial_idle)
      with assms st False ClickCheckOut show ?thesis
        by (simp add: serial_start_checkOut)
    qed
  next
    case (Answer i resp)
    with assms st show ?thesis by (simp add: serial_resume)
  next
    case (SetUser u now thirtyDaysAgo)
    with assms show ?thesis by (simp add: no_completion_def)
  next
    case (FetchRange dateRange)
    with assms st show ?thesis by (simp add: serial_start_fetch)
  next
    case (AnswerRows i resp)
    with assms show ?thesis by (simp add: no_completion_def)
  qed
qed

lemma serial_run_dashboard:
  "serial st \<Longrightarrow> list_all no_completion evs \<Longrightarrow> serial (run_events dashboard_step evs st)"
  by (induction evs arbitrary: st) (simp_all add: serial_dashboard_step)

lemma serial_click_rejected:
  assumes "serial st" and "calls st \<noteq> []"
  shows "dashboard_step (ClickCheckIn now) st = st \<and> dashboard_step (ClickCheckOut now) st = st"
  using assms by (simp add: serial_def checkIn_disabled_def checkOut_disabled_def)

lemma checkOut_during_checkIn:
  assumes "user s \<noteq> None" "todayRecord s = None"
  shows "snd (snd (checkIn_begin now s)) \<noteq> None
       \<and> checkOut_begin now' (fst (checkIn_begin now s)) = (fst (checkIn_begin now s), [], None)"
  using assms by (auto simp: checkIn_begin_def checkOut_begin_def)

lemma checkIn_during_checkOut:
  assumes "user s \<noteq> None" "isCheckedIn s"
  shows "snd (snd (checkOut_begin now s)) \<noteq> None
       \<and> checkIn_begin now' (fst (checkOut_begin now s))
           = ((fst (checkOut_begin now s))\<lparr>isLoading := False\<rparr>,
              [Toast (Some Default) ''Already checked in''], None)"
  using assms by (auto simp: checkIn_begin_def checkOut_begin_def isCheckedIn_def split: option.splits)

lemma fetch_completion:
  assumes "i < length ps" and "ps ! i = PendingFetch"
  shows "dashboard_step (AnswerRows i resp) (s, ps)
           = (s\<lparr>isLoading := False\<rparr>, take i ps @ drop (Suc i) ps)"
  using assms by (simp add: resume_rows_def fetch_resume_def split: option.splits)

lemma load_completion:
  assumes "i < length ps" and "ps ! i = PendingRecent"
  shows "\<not> isLoading (fst (dashboard_step (AnswerRows i resp) (s, ps)))
       \<and> todayRecord (fst (dashboard_step (AnswerRows i resp) (s, ps))) = todayRecord s
       \<and> snd (dashboard_step (AnswerRows i resp) (s, ps)) = take i ps @ drop (Suc i) ps"
  using assms by (simp add: resume_rows_def load_recent_def load_failed_def split: option.splits)

text \<open>
  The busy flag is one cell for four operations. A date-range query that is answered
  while a check-in is in flight lowers the flag; the check-in button of the dashboard
  is enabled again, and a second click sends a second insert.
\<close>

lemma fetch_completion_reopens_checkIn:
  "run_events dashboard_step
     [ClickCheckIn eight, FetchRange first_week, AnswerRows 1 refused]
     (logged_in, [])
     = (logged_in, [PendingCheckIn []])
   \<and> \<not> checkIn_disabled logged_in
   \<and> run_events dashboard_step
       [ClickCheckIn eight, FetchRange first_week, AnswerRows 1 refused, ClickCheckIn (eight + 1)]
       (logged_in, [])
     = (logged_in\<lparr>isLoading := True\<rparr>, [PendingCheckIn [], PendingCheckIn []])"
proof -
  have a: "checkIn_begin now logged_in
     = (logged_in\<lparr>isLoading := True\<rparr>, [Insert ''1'' now (toISODate now)], Some [])" for now
    by (simp add: checkIn_begin_def logged_in_def alice_def)
  have b: "fetch_begin first_week (logged_in\<lparr>isLoading := True\<rparr>)
     = (logged_in\<lparr>isLoading := True\<rparr>,
        [SelectRange ''1'' (toISODate eight) (toISODate (eight + 259200000))], True)"
    by (simp add: fetch_begin_def first_week_def logged_in_def alice_def)
  have c: "fst (snd (fetch_resume refused (logged_in\<lparr>isLoading := True\<rparr>))) = logged_in"
    by (simp add: fetch_resume_def refused_def logged_in_def)
  have d: "\<not> checkIn_disabled logged_in"
    by (simp add: checkIn_disabled_def logged_in_def)
  have e: "run_events dashboard_step
     [ClickCheckIn eight, FetchRange first_week, AnswerRows 1 refused]
     (logged_in, [])
     = (logged_in, [PendingCheckIn []])"
    by (simp add: d start_checkIn_def a start_fetch_def b resume_rows_def c)
  have f: "run_events dashboard_step
       [ClickCheckIn eight, FetchRange first_week, AnswerRows 1 refused, ClickCheckIn (eight + 1)]
       (logged_in, [])
     = (logged_in\<lparr>isLoading := True\<rparr>, [PendingCheckIn [], PendingCheckIn []])"
    by (simp add: d start_checkIn_def a start_fetch_def b resume_rows_def c)
  show ?thesis using d e f by simp
qed

text \<open>
  C6, as stated, fails. A second check-in that is invoked while the first is in flight
  is neither rejected nor queued: it finds no record for today, sends its own insert,
  and both calls are in flight. When both are answered, the later answer overwrites
  what the earlier one wrote.
\<close>

theorem overlapping_checkIns_both_proceed:
  "checkIn_begin eight logged_in
     = (logged_in\<lparr>isLoading := True\<rparr>, [Insert ''1'' eight ''2024-01-02''], Some [])
   \<and> checkIn_begin (eight + 1) (logged_in\<lparr>isLoading := True\<rparr>)
     = (logged_in\<lparr>isLoading := True\<rparr>, [Insert ''1'' (eight + 1) ''2024-01-02''], Some [])
   \<and> run_events direct_step [ClickCheckIn eight, ClickCheckIn (eight + 1)] (logged_in, [])
     = (logged_in\<lparr>isLoading := True\<rparr>, [PendingCheckIn [], PendingCheckIn []])
   \<and> run_events direct_step
        [ClickCheckIn eight, ClickCheckIn (eight + 1),
         Answer 0 (accepted morning), Answer 0 (accepted (morning\<lparr>record_id := ''r2''\<rparr>))]
        (logged_in, [])
     = (logged_in\<lparr>todayRecord := Some (morning\<lparr>record_id := ''r2''\<rparr>),
                  recentRecords := [morning\<lparr>record_id := ''r2''\<rparr>]\<rparr>, [])"
proof -
  have d1: "toISODate eight = ''2024-01-02''" by code_simp
  have d2: "toISODate (eight + 1) = ''2024-01-02''" by code_simp
  have a: "checkIn_begin eight logged_in
     = (logged_in\<lparr>isLoading := True\<rparr>, [Insert ''1'' eight ''2024-01-02''], Some [])"
    by (simp add: checkIn_begin_def d1 logged_in_def alice_def)
  have b: "checkIn_begin (eight + 1) (logged_in\<lparr>isLoading := True\<rparr>)
     = (logged_in\<lparr>isLoading := True\<rparr>, [Insert ''1'' (eight + 1) ''2024-01-02''], Some [])"
    by (simp add: checkIn_begin_def d2 logged_in_def alice_def)
  have c: "run_events direct_step [ClickCheckIn eight, ClickCheckIn (eight + 1)] (logged_in, [])
     = (logged_in\<lparr>isLoading := True\<rparr>, [PendingCheckIn [], PendingCheckIn []])"
    by (simp add: start_checkIn_def a b)
  have d: "run_events direct_step
        [ClickCheckIn eight, ClickCheckIn (eight + 1),
         Answer 0 (accepted morning), Answer 0 (accepted (morning\<lparr>record_id := ''r2''\<rparr>))]
        (logged_in, [])
     = (logged_in\<lparr>todayRecord := Some (morning\<lparr>record_id := ''r2''\<rparr>),
                  recentRecords := [morning\<lparr>record_id := ''r2''\<rparr>]\<rparr>, [])"
    by (simp add: start_checkIn_def a b)
      (simp add: resume_def checkIn_resume_def accepted_def formatRecord_def logged_in_def
        morning_def Let_def)
  show ?thesis using a b c d by simp
qed

text \<open>
  C6, amended. The tracker's \<^verbatim>\<open>checkIn\<close> and \<^verbatim>\<open>checkOut\<close> raise the busy flag but never
  read it; what reads it are the two buttons of the dashboard, which are disabled
  while it is raised. Driven through the dashboard from a moment at which nothing is
  in flight, check-in and check-out calls do not overlap as long as the identity is
  not replaced and no load and no date-range query is answered in between (a
  date-range query may start): then at most one call is in flight, and while one is,
  the flag is raised and a click on either button starts nothing. The tracker's own precondition checks reject a check-out that is
  invoked while a check-in is in flight (it finds no record for today and does
  nothing) and a check-in that is invoked while a check-out is in flight (it reports
  \<^verbatim>\<open>Already checked in\<close>).
\<close>

theorem dashboard_serializes_calls:
  "(list_all no_completion evs \<longrightarrow>
      length (calls (run_events dashboard_step evs (s, []))) \<le> 1
    \<and> (calls (run_events dashboard_step evs (s, [])) \<noteq> [] \<longrightarrow>
         isLoading (fst (run_events dashboard_step evs (s, [])))
       \<and> dashboard_step (ClickCheckIn now) (run_events dashboard_step evs (s, []))
           = run_events dashboard_step evs (s, [])
       \<and> dashboard_step (ClickCheckOut now) (run_events dashboard_step evs (s, []))
           = run_events dashboard_step evs (s, [])))
   \<and> (user s \<noteq> None \<and> todayRecord s = None \<longrightarrow>
        snd (snd (checkIn_begin now s)) \<noteq> None
      \<and> checkOut_begin now' (fst (checkIn_begin now s)) = (fst (checkIn_begin now s), [], None))
   \<and> (user s \<noteq> None \<and> isCheckedIn s \<longrightarrow>
        snd (snd (checkOut_begin now s)) \<noteq> None
      \<and> checkIn_begin now' (fst (checkOut_begin now s))
           = ((fst (checkOut_begin now s))\<lparr>isLoading := False\<rparr>,
              [Toast (Some Default) ''Already checked in''], None))"
proof -
  have init: "serial (s, [])" by (simp add: serial_def calls_def)
  have a: "list_all no_completion evs \<longrightarrow>
      length (calls (run_events dashboard_step evs (s, []))) \<le> 1
    \<and> (calls (run_events dashboard_step evs (s, [])) \<noteq> [] \<longrightarrow>
         isLoading (fst (run_events dashboard_step evs (s, [])))
       \<and> dashboard_step (ClickCheckIn now) (run_events dashboard_step evs (s, []))
           = run_events dashboard_step evs (s, [])
       \<and> dashboard_step (ClickCheckOut now) (run_events dashboard_step evs (s, []))
           = run_events dashboard_step evs (s, []))"
  proof
    assume "list_all no_completion evs"
    with init have run: "serial (run_events dashboard_step evs (s, []))"
      by (rule serial_run_dashboard)
    then show "length (calls (run_events dashboard_step evs (s, []))) \<le> 1
    \<and> (calls (run_events dashboard_step evs (s, [])) \<noteq> [] \<longrightarrow>
         isLoading (fst (run_events dashboard_step evs (s, [])))
       \<and> dashboard_step (ClickCheckIn now) (run_events dashboard_step evs (s, []))
           = run_events dashboard_step evs (s, [])
       \<and> dashboard_step (ClickCheckOut now) (run_events dashboard_step evs (s, []))
           = run_events dashboard_step evs (s, []))"
      using serial_click_rejected [OF run, of now] by (simp add: serial_def)
  qed
  show ?thesis
    using a checkOut_during_checkIn [of s now now'] checkIn_during_checkOut [of s now now']
    by blast
qed

theorem dashboard_serializes_calls_witness:
  "list_all no_completion [ClickCheckIn eight, FetchRange first_week]
   \<and> calls (run_events dashboard_step [ClickCheckIn eight, FetchRange first_week] (logged_in, [])) \<noteq> []
   \<and> isLoading (fst (run_events dashboard_step [ClickCheckIn eight, FetchRange first_week] (logged_in, [])))
   \<and> dashboard_step (ClickCheckIn (eight + 1))
        (run_events dashboard_step [ClickCheckIn eight, FetchRange first_week] (logged_in, []))
       = run_events dashboard_step [ClickCheckIn eight, FetchRange first_week] (logged_in, [])
   \<and> dashboard_step (ClickCheckOut (eight + 2))
        (run_events dashboard_step [ClickCheckIn eight, FetchRange first_week] (logged_in, []))
       = run_events dashboard_step [ClickCheckIn eight, FetchRange first_week] (logged_in, [])
   \<and> user logged_in \<noteq> None \<and> todayRecord logged_in = None
   \<and> checkOut_begin (eight + 2) (fst (checkIn_begin eight logged_in))
       = (fst (checkIn_begin eight logged_in), [], None)
   \<and> user checked_in \<noteq> None \<and> isCheckedIn checked_in
   \<and> checkIn_begin (seventeen + 1) (fst (checkOut_begin seventeen checked_in))
       = ((fst (checkOut_begin seventeen checked_in))\<lparr>isLoading := False\<rparr>,
          [Toast (Some Default) ''Already checked in''], None)"
proof -
  have n: "list_all no_completion [ClickCheckIn eight, FetchRange first_week]"
    by (simp add: no_completion_def)
  have p: "calls (run_events dashboard_step [ClickCheckIn eight, FetchRange first_week] (logged_in, [])) \<noteq> []"
    by (simp add: checkIn_disabled_def start_checkIn_def checkIn_begin_def logged_in_def
        start_fetch_def fetch_begin_def first_week_def calls_def is_call_def)
  show ?thesis
    using n p
      dashboard_serializes_calls [where evs = "[ClickCheckIn eight, FetchRange first_week]"
        and s = logged_in and now = "eight + 1" and now' = "eight + 2"]
      dashboard_serializes_calls [where evs = "[ClickCheckIn eight, FetchRange first_week]"
        and s = logged_in and now = "eight + 2" and now' = "eight + 2"]
      dashboard_serializes_calls [where evs = "[ClickCheckIn eight, FetchRange first_week]"
        and s = logged_in and now = "eight" and now' = "eight + 2"]
      dashboard_serializes_calls [where evs = "[]" and s = checked_in
        and now = "seventeen" and now' = "seventeen + 1"]
    by (simp add: example_simps isCheckedIn_def del: dashboard_step.simps run_events.simps)
qed

section \<open>Rounding to a double and to one decimal\<close>

lemma round_half_even_error: "\<bar>of_int (round_half_even m) - m\<bar> \<le> (1 / 2 :: rat)"
proof -
  have "of_int \<lfloor>m\<rfloor> \<le> m" "m < of_int \<lfloor>m\<rfloor> + 1" by linarith+
  then show ?thesis
    by (auto simp: round_half_even_def Let_def abs_le_iff)
qed

lemma quotient_of_pos:
  assumes "0 < x" and "quotient_of x = (n, d)"
  shows "0 < n \<and> 0 < d \<and> x = of_int n / of_int d"
proof -
  from assms(2) have d: "0 < d" by (rule quotient_of_denom_pos)
  from assms(2) have x: "x = of_int n / of_int d" by (rule quotient_of_div)
  with assms(1) d have "0 < n"
    by (simp add: zero_less_divide_iff)
  with d x show ?thesis by simp
qed

lemma binade_le:
  assumes "0 < x"
  shows "2 powi (binade x) \<le> x"
proof -
  obtain n d where q: "quotient_of x = (n, d)" by (cases "quotient_of x")
  from quotient_of_pos [OF assms q] have n: "0 < n" and d: "0 < d" and x: "x = of_int n / of_int d"
    by simp_all
  define bn where "bn = floorlog 2 (nat n)"
  define bd where "bd = floorlog 2 (nat d)"
  have bn: "2 ^ (bn - 1) \<le> nat n" "0 < bn"
    using floorlog_bounds [of "nat n" 2] n by (auto simp: bn_def floorlog_def)
  have bd: "nat d < 2 ^ bd"
    using floorlog_bounds [of "nat d" 2] d by (simp add: bd_def)
  show ?thesis
  proof (cases "2 powi (int bn - int bd) \<le> x")
    case True
    then show ?thesis
      by (simp add: binade_def q bn_def bd_def Let_def)
  next
    case False
    then have b: "binade x = int bn - int bd - 1"
      by (simp add: binade_def q bn_def bd_def Let_def)
    have n': "(2::rat) ^ (bn - 1) \<le> of_int n"
    proof -
      have "(2::int) ^ (bn - 1) \<le> n" using bn(1) n by (simp add: le_nat_iff)
      then have "(of_int ((2::int) ^ (bn - 1)) :: rat) \<le> of_int n" by (simp only: of_int_le_iff)
      then show ?thesis by simp
    qed
    have d': "(of_int d :: rat) \<le> 2 ^ bd"
    proof -
      have "d < (2::int) ^ bd" using bd d by (simp add: nat_less_iff)
      then have "d \<le> (2::int) ^ bd" by simp
      then have "(of_int d :: rat) \<le> of_int ((2::int) ^ bd)" by (simp only: of_int_le_iff)
      then show ?thesis by simp
    qed
    have e: "(2::rat) powi (int bn - int bd - 1) = 2 ^ (bn - 1) / 2 ^ bd"
    proof -
      obtain k where k: "bn = Suc k" using bn(2) by (cases bn) auto
      have "(2::rat) powi (int k - int bd) = 2 powi (int k) / 2 powi (int bd)"
        by (rule power_int_diff) simp
      then show ?thesis by (simp add: k)
    qed
    have "(2::rat) ^ (bn - 1) / 2 ^ bd \<le> of_int n / of_int d"
      using n' d' d n by (intro frac_le) simp_all
    with b e x show ?thesis by simp
  qed
qed

lemma to_double_error:
  assumes "0 < x"
  shows "\<bar>to_double x - x\<bar> \<le> x / 2 ^ 53" and "0 \<le> to_double x"
proof -
  define u :: rat where "u = 2 powi (binade x - 52)"
  have u0: "0 < u" by (simp add: u_def)
  have "u = 2 powi (binade x) / 2 ^ 52"
    by (simp add: u_def power_int_diff)
  with binade_le [OF assms] have ux: "u \<le> x / 2 ^ 52"
    by (simp add: divide_right_mono)
  define M where "M = round_half_even (x / u)"
  have t: "to_double x = of_int M * u"
    using assms by (simp add: to_double_def Let_def u_def M_def)
  have "\<bar>of_int M - x / u\<bar> \<le> 1 / 2"
    unfolding M_def by (rule round_half_even_error)
  then have "\<bar>of_int M - x / u\<bar> * u \<le> 1 / 2 * u"
    using u0 by (intro mult_right_mono) simp_all
  moreover have "\<bar>of_int M - x / u\<bar> * u = \<bar>of_int M * u - x\<bar>"
  proof -
    have "\<bar>of_int M - x / u\<bar> * u = \<bar>(of_int M - x / u) * u\<bar>"
      using u0 by (simp add: abs_mult)
    also have "(of_int M - x / u) * u = of_int M * u - x"
      using u0 by (simp add: field_simps)
    finally show ?thesis .
  qed
  ultimately have "\<bar>to_double x - x\<bar> \<le> u / 2" by (simp add: t)
  also have "u / 2 \<le> x / 2 ^ 53" using ux by simp
  finally show "\<bar>to_double x - x\<bar> \<le> x / 2 ^ 53" .
  have "0 \<le> x / u" using assms u0 by simp
  then have "0 \<le> \<lfloor>x / u\<rfloor>" by simp
  then have "0 \<le> M"
    by (auto simp: M_def round_half_even_def Let_def)
  then show "0 \<le> to_double x"
    using u0 by (simp add: t)
qed

lemma one_decimal_of_double:
  fixes a b :: nat and x :: rat
  assumes b: "0 < b" and small: "20 * a < 2 ^ 53" and x0: "0 \<le> x"
    and err: "\<bar>x - of_nat a / of_nat b\<bar> \<le> (of_nat a / of_nat b) / 2 ^ 53"
  shows "\<bar>of_int \<lfloor>10 * x + 1 / 2\<rfloor> / 10 - of_nat a / of_nat b\<bar> \<le> (1 / 20 :: rat)"
proof -
  define A :: rat where "A = of_nat a"
  define B :: rat where "B = of_nat b"
  define n where "n = \<lfloor>10 * x + 1 / 2\<rfloor>"
  have B0: "0 < B" using b by (simp add: B_def)
  have A0: "0 \<le> A" by (simp add: A_def)
  have tiny: "20 * A / 2 ^ 53 < 1"
  proof -
    have "(of_nat (20 * a) :: rat) < of_nat (2 ^ 53)" using small by (simp only: of_nat_less_iff)
    then show ?thesis by (simp add: A_def)
  qed
  have fl: "of_int n \<le> 10 * x + 1 / 2" "10 * x + 1 / 2 < of_int n + 1"
    unfolding n_def by linarith+
  define q where "q = A / B"
  define dl where "dl = q / 2 ^ 53"
  have xu: "x \<le> q + dl" and xl: "q - dl \<le> x"
    using err unfolding A_def B_def q_def dl_def by (simp_all add: abs_le_iff)
  have qB: "q * B = A" using B0 by (simp add: q_def)
  have dB: "20 * (dl * B) < 1"
  proof -
    have "dl * B = A / 2 ^ 53" using qB by (simp add: dl_def)
    with tiny show ?thesis by simp
  qed
  have up: "of_int n * (2 * B) < 20 * A + B + 1"
  proof -
    have "of_int n \<le> 10 * (q + dl) + 1 / 2" using fl(1) xu by simp
    then have "of_int n * (2 * B) \<le> (10 * (q + dl) + 1 / 2) * (2 * B)"
      using B0 by (intro mult_right_mono) simp_all
    also have "(10 * (q + dl) + 1 / 2) * (2 * B) = 20 * (q * B) + 20 * (dl * B) + B"
      by (simp add: algebra_simps)
    also have "\<dots> < 20 * A + B + 1" using dB by (simp add: qB)
    finally show ?thesis .
  qed
  have lo: "20 * A + B - 1 < (of_int n + 1) * (2 * B)"
  proof -
    have "10 * (q - dl) + 1 / 2 < of_int n + 1" using fl(2) xl by simp
    then have "(10 * (q - dl) + 1 / 2) * (2 * B) < (of_int n + 1) * (2 * B)"
      using B0 by (intro mult_strict_right_mono) simp_all
    moreover have "(10 * (q - dl) + 1 / 2) * (2 * B) = 20 * (q * B) - 20 * (dl * B) + B"
      by (simp add: algebra_simps)
    ultimately have "20 * (q * B) - 20 * (dl * B) + B < (of_int n + 1) * (2 * B)" by simp
    then show ?thesis using dB by (simp add: qB)
  qed
  have up_int: "n * (2 * int b) \<le> 20 * int a + int b"
  proof -
    have "(of_int (n * (2 * int b)) :: rat) < of_int (20 * int a + int b + 1)"
      using up by (simp add: A_def B_def)
    then have "n * (2 * int b) < 20 * int a + int b + 1" by (simp only: of_int_less_iff)
    then show ?thesis by simp
  qed
  have lo_int: "20 * int a + int b \<le> (n + 1) * (2 * int b)"
  proof -
    have "(of_int (20 * int a + int b - 1) :: rat) < of_int ((n + 1) * (2 * int b))"
      using lo by (simp add: A_def B_def)
    then have "20 * int a + int b - 1 < (n + 1) * (2 * int b)" by (simp only: of_int_less_iff)
    then show ?thesis by simp
  qed
  have u2: "of_int n * (2 * B) \<le> 20 * A + B"
  proof -
    have "(of_int (n * (2 * int b)) :: rat) \<le> of_int (20 * int a + int b)"
      using up_int by (simp only: of_int_le_iff)
    then show ?thesis by (simp add: A_def B_def)
  qed
  have l2: "20 * A + B \<le> (of_int n + 1) * (2 * B)"
  proof -
    have "(of_int (20 * int a + int b) :: rat) \<le> of_int ((n + 1) * (2 * int b))"
      using lo_int by (simp only: of_int_le_iff)
    then show ?thesis by (simp add: A_def B_def)
  qed
  have "\<bar>of_int n / 10 - A / B\<bar> * (20 * B) = \<bar>of_int n * (2 * B) - 20 * A\<bar>"
  proof -
    have "\<bar>of_int n / 10 - A / B\<bar> * (20 * B) = \<bar>(of_int n / 10 - A / B) * (20 * B)\<bar>"
      using B0 by (simp add: abs_mult)
    also have "(of_int n / 10 - A / B) * (20 * B) = of_int n * (2 * B) - 20 * A"
      using B0 by (simp add: field_simps)
    finally show ?thesis .
  qed
  moreover have "\<bar>of_int n * (2 * B) - 20 * A\<bar> \<le> B"
    using u2 l2 by (simp add: abs_le_iff algebra_simps)
  ultimately have "\<bar>of_int n / 10 - A / B\<bar> * (20 * B) \<le> 1 / 20 * (20 * B)"
    by simp
  then have "\<bar>of_int n / 10 - A / B\<bar> \<le> 1 / 20"
    using B0 by (simp only: mult_le_cancel_right)
  then show ?thesis
    by (simp add: n_def A_def B_def)
qed

section \<open>Digits\<close>

lemma digit_cases:
  assumes "d < 10"
  obtains "d = 0" | "d = 1" | "d = 2" | "d = 3" | "d = 4" | "d = 5" | "d = 6" | "d = 7"
    | "d = 8" | "d = (9::nat)"
proof -
  have "d = 0 \<or> d = 1 \<or> d = 2 \<or> d = 3 \<or> d = 4 \<or> d = 5 \<or> d = 6 \<or> d = 7 \<or> d = 8 \<or> d = 9"
    using assms by presburger
  then show ?thesis using that by blast
qed

lemma digit_of_digit_char: "d < 10 \<Longrightarrow> digit_of 10 (digit_char d) = Some d"
  by (erule digit_cases) (simp_all add: digit_of_def digit_char_def digit_table_def upt_rec)

lemma digit_char_plain:
  "d < 10 \<Longrightarrow> digit_char d \<noteq> CHR ''h'' \<and> digit_char d \<noteq> CHR ''-'' \<and> digit_char d \<noteq> CHR ''+''
     \<and> digit_char d \<noteq> CHR ''x'' \<and> digit_char d \<noteq> CHR ''X'' \<and> digit_char d \<noteq> newline
     \<and> \<not> is_space (digit_char d)"
  by (erule digit_cases) (simp_all add: digit_char_def is_space_def newline_def)

lemma show_nat_digits: "show_nat n \<noteq> [] \<and> (\<forall>c \<in> set (show_nat n). plain_digit c)"
proof (induction n rule: show_nat.induct)
  case (1 n)
  show ?case
  proof (cases "n < 10")
    case True
    then show ?thesis
      by (subst (1 2) show_nat.simps) (auto simp: plain_digit_def)
  next
    case False
    have "plain_digit (digit_char (n mod 10))"
      unfolding plain_digit_def by (rule exI [of _ "n mod 10"]) simp
    with False 1 show ?thesis
      by (subst (1 2) show_nat.simps) auto
  qed
qed

lemma digits_value_snoc:
  "digits_value r (z @ [c]) = digits_value r z * r + the (digit_of r c)"
  by (simp add: digits_value_def)

lemma digits_value_show_nat: "digits_value 10 (show_nat n) = n"
proof (induction n rule: show_nat.induct)
  case (1 n)
  show ?case
  proof (cases "n < 10")
    case True
    then show ?thesis
      by (subst show_nat.simps) (simp add: digits_value_def digit_of_digit_char)
  next
    case False
    have "n mod 10 < 10" by simp
    with False 1 show ?thesis
      by (subst show_nat.simps) (simp add: digits_value_snoc digit_of_digit_char)
  qed
qed

lemma plain_digit_props:
  assumes "plain_digit c"
  shows "digit_of 10 c \<noteq> None" "c \<noteq> CHR ''h''" "c \<noteq> CHR ''-''" "c \<noteq> CHR ''+''"
    "c \<noteq> CHR ''x''" "c \<noteq> CHR ''X''" "\<not> is_space c" "c \<noteq> newline"
  using assms digit_char_plain by (auto simp: plain_digit_def digit_of_digit_char)

lemma takeWhile_all: "\<forall>c \<in> set z. P c \<Longrightarrow> takeWhile P z = z"
  by (induction z) auto

lemma plain_digits_facts:
  assumes "s \<noteq> []" and "\<forall>k \<in> set s. plain_digit k"
  shows "dropWhile is_space s = s" and "hd s \<noteq> CHR ''-''" and "hd s \<noteq> CHR ''+''"
    and "take 2 s \<noteq> ''0x''" and "take 2 s \<noteq> ''0X''"
    and "takeWhile (\<lambda>c. digit_of 10 c \<noteq> None) s = s"
    and "takeWhile (\<lambda>c. \<exists>y. digit_of 10 c = Some y) s = s"
proof -
  obtain c z where s: "s = c # z" using assms(1) by (cases s) auto
  with assms(2) have c: "plain_digit c" by simp
  show "dropWhile is_space s = s" using plain_digit_props(7) [OF c] by (simp add: s)
  show "hd s \<noteq> CHR ''-''" using plain_digit_props(3) [OF c] by (simp add: s)
  show "hd s \<noteq> CHR ''+''" using plain_digit_props(4) [OF c] by (simp add: s)
  show "takeWhile (\<lambda>c. digit_of 10 c \<noteq> None) s = s"
    using assms(2) by (intro takeWhile_all) (auto dest: plain_digit_props(1))
  show "takeWhile (\<lambda>c. \<exists>y. digit_of 10 c = Some y) s = s"
    using assms(2) by (intro takeWhile_all) (auto dest: plain_digit_props(1))
  show "take 2 s \<noteq> ''0x''"
  proof (cases z)
    case Nil
    then show ?thesis by (simp add: s)
  next
    case (Cons k z')
    with assms(2) s have "plain_digit k" by simp
    then have "k \<noteq> CHR ''x''" by (rule plain_digit_props(5))
    with Cons show ?thesis by (simp add: s)
  qed
  show "take 2 s \<noteq> ''0X''"
  proof (cases z)
    case Nil
    then show ?thesis by (simp add: s)
  next
    case (Cons k z')
    with assms(2) s have "plain_digit k" by simp
    then have "k \<noteq> CHR ''X''" by (rule plain_digit_props(6))
    with Cons show ?thesis by (simp add: s)
  qed
qed

lemma parseInt_digits:
  assumes "s \<noteq> []" and "\<forall>k \<in> set s. plain_digit k"
  shows "parseInt s = Some (int (digits_value 10 s))"
  unfolding parseInt_def Let_def
  by (simp add: plain_digits_facts [OF assms] assms(1))

lemma parseInt_minus_digits:
  assumes "s \<noteq> []" and "\<forall>k \<in> set s. plain_digit k"
  shows "parseInt (CHR ''-'' # s) = Some (- int (digits_value 10 s))"
proof -
  have d: "dropWhile is_space (CHR ''-'' # s) = CHR ''-'' # s"
    by (simp add: is_space_def)
  show ?thesis
    unfolding parseInt_def Let_def d
    by (simp add: plain_digits_facts [OF assms] assms(1))
qed

lemma parseInt_show_nat: "parseInt (show_nat n) = Some (int n)"
  using parseInt_digits [of "show_nat n"] show_nat_digits [of n]
  by (simp add: digits_value_show_nat)

lemma parseInt_minus_show_nat: "parseInt (CHR ''-'' # show_nat n) = Some (- int n)"
  using parseInt_minus_digits [of "show_nat n"] show_nat_digits [of n]
  by (simp add: digits_value_show_nat)

lemma parseInt_show_int: "parseInt (show_int i) = Some i"
  by (simp add: show_int_def parseInt_show_nat parseInt_minus_show_nat)

lemma show_int_no_h: "CHR ''h'' \<notin> set (show_int i)"
  using show_nat_digits plain_digit_props(2) by (auto simp: show_int_def)

lemma split_h_duration:
  "takeWhile (\<lambda>c. c \<noteq> CHR ''h'') (show_int h @ ''h '' @ rest) = show_int h"
proof -
  have "takeWhile (\<lambda>c. c \<noteq> CHR ''h'') (show_int h @ CHR ''h'' # CHR '' '' # rest) = show_int h"
    using show_int_no_h [of h] by (simp add: takeWhile_append takeWhile_all)
  then show ?thesis by simp
qed

section \<open>Summary figures of a report\<close>

lemma plain_digit_not_I: "plain_digit c \<Longrightarrow> c \<noteq> CHR ''I''"
  unfolding plain_digit_def
  by (elim exE conjE, erule digit_cases) (simp_all add: digit_char_def)

lemma show_int_not_in_progress: "show_int h @ rest \<noteq> ''In progress''"
proof -
  obtain c z where z: "show_nat (nat \<bar>h\<bar>) = c # z"
    using show_nat_digits [of "nat \<bar>h\<bar>"] by (cases "show_nat (nat \<bar>h\<bar>)") auto
  with show_nat_digits [of "nat \<bar>h\<bar>"] have "plain_digit c" by simp
  then have "c \<noteq> CHR ''I''" by (rule plain_digit_not_I)
  then show ?thesis
    using z by (cases "h < 0") (simp_all add: show_int_def abs_if)
qed

lemma add_hours_row:
  "add_hours (Some t)
     \<lparr>report_id = i, report_date = d, checkInTime = a, checkOutTime = b,
      duration = report_duration check_in check_out\<rparr>
   = Some (t + (case check_out of None \<Rightarrow> 0 | Some out \<Rightarrow> differenceInHours out check_in))"
proof (cases check_out)
  case None
  then show ?thesis by (simp add: add_hours_def report_duration_def)
next
  case (Some out)
  have "report_duration check_in (Some out)
        = show_int (differenceInHours out check_in) @ ''h ''
          @ (show_int (js_rem (differenceInMinutes out check_in) 60) @ ''m'')"
    by (simp add: report_duration_def Let_def)
  then show ?thesis
    using show_int_not_in_progress [of "differenceInHours out check_in"]
      split_h_duration [of "differenceInHours out check_in"]
    by (simp add: add_hours_def Some parseInt_show_int)
qed

lemma foldl_add_hours:
  "foldl add_hours (Some t) (generateReport format_date format_time records)
   = Some (t + (\<Sum>record \<leftarrow> records.
                  case check_out_time record of
                    None \<Rightarrow> 0
                  | Some out \<Rightarrow> differenceInHours out (check_in_time record)))"
proof (induction records arbitrary: t)
  case Nil
  then show ?case by (simp add: generateReport_def)
next
  case (Cons r rs)
  have "generateReport format_date format_time (r # rs)
        = \<lparr>report_id = record_id r, report_date = format_date (date r),
            checkInTime = format_time (check_in_time r),
            checkOutTime = map_option format_time (check_out_time r),
            duration = report_duration (check_in_time r) (check_out_time r)\<rparr>
          # generateReport format_date format_time rs"
    by (simp add: generateReport_def)
  then show ?case
    using Cons.IH by (simp add: add_hours_row add.assoc)
qed

lemma totalHours_generateReport:
  "totalHours (generateReport format_date format_time records)
   = Some (\<Sum>record \<leftarrow> records.
             case check_out_time record of
               None \<Rightarrow> 0
             | Some out \<Rightarrow> differenceInHours out (check_in_time record))"
  by (simp add: totalHours_def foldl_add_hours)

lemma length_generateReport:
  "length (generateReport format_date format_time records) = length records"
  by (simp add: generateReport_def)

lemma toFixed1_rounds:
  fixes hours :: int and days :: nat
  assumes "0 \<le> hours" and "0 < days" and "20 * hours < 2 ^ 53"
  shows "\<exists>n. toFixed1 (to_double (of_int hours / of_nat days))
               = show_nat (n div 10) @ ''.'' @ [digit_char (n mod 10)]
            \<and> \<bar>of_nat n / 10 - of_int hours / of_nat days\<bar> \<le> (1 / 20 :: rat)"
proof (cases "hours = 0")
  case True
  have "toFixed1 (to_double (of_int hours / of_nat days))
        = show_nat (0 div 10) @ ''.'' @ [digit_char (0 mod 10)]"
    by (simp add: True to_double_def toFixed1_def)
  moreover have "\<bar>of_nat 0 / 10 - of_int hours / of_nat days\<bar> \<le> (1 / 20 :: rat)"
    by (simp add: True)
  ultimately show ?thesis by blast
next
  case False
  define a where "a = nat hours"
  define q :: rat where "q = of_nat a / of_nat days"
  have ha: "hours = int a" using assms(1) by (simp add: a_def)
  have a0: "0 < a" using False assms(1) by (simp add: a_def)
  have q0: "0 < q" using a0 assms(2) by (simp add: q_def)
  have qq: "of_int hours / of_nat days = q" by (simp add: q_def ha)
  define x where "x = to_double q"
  have x0: "0 \<le> x" and err: "\<bar>x - q\<bar> \<le> q / 2 ^ 53"
    using to_double_error [OF q0] by (simp_all add: x_def)
  have small: "20 * a < 2 ^ 53"
  proof -
    have "int (20 * a) < int (2 ^ 53)" using assms(3) by (simp add: ha)
    then show ?thesis by (simp only: of_nat_less_iff)
  qed
  define n where "n = nat \<lfloor>10 * x + 1 / 2\<rfloor>"
  have fl0: "0 \<le> \<lfloor>10 * x + 1 / 2\<rfloor>" using x0 by simp
  have nn: "(of_nat n :: rat) = of_int \<lfloor>10 * x + 1 / 2\<rfloor>"
    using fl0 by (simp add: n_def)
  have r: "\<bar>of_nat n / 10 - q\<bar> \<le> (1 / 20 :: rat)"
    using one_decimal_of_double [OF assms(2) small x0, unfolded q_def [symmetric], OF err]
    by (simp add: nn)
  have "toFixed1 x = show_nat (n div 10) @ ''.'' @ [digit_char (n mod 10)]"
    using x0 by (simp add: toFixed1_def Let_def n_def)
  with r show ?thesis
    unfolding qq x_def by blast
qed

section \<open>The exported file\<close>

lemma lines_of_nonempty: "lines_of s \<noteq> []"
  by (induction s) (auto split: list.splits)

lemma lines_of_plain: "newline \<notin> set x \<Longrightarrow> lines_of x = [x]"
  by (induction x) (auto split: list.splits)

lemma lines_of_append:
  "newline \<notin> set x \<Longrightarrow> lines_of (x @ newline # rest) = x # lines_of rest"
  using lines_of_nonempty [of rest]
  by (induction x) (auto split: list.splits)

lemma lines_of_join:
  "xs \<noteq> [] \<Longrightarrow> \<forall>x \<in> set xs. newline \<notin> set x \<Longrightarrow> lines_of (join [newline] xs) = xs"
proof (induction "[newline]" xs rule: join.induct)
  case 1
  then show ?case by simp
next
  case (2 x)
  then show ?case by (simp add: lines_of_plain)
next
  case (3 x y ys)
  then show ?case by (simp add: lines_of_append)
qed

lemma header_plain: "newline \<notin> set ''Date,Check In Time,Check Out Time,Duration''"
  by (simp add: newline_def)

lemma show_nat_length: "0 < k \<Longrightarrow> n < 10 ^ k \<Longrightarrow> length (show_nat n) \<le> k"
proof (induction k arbitrary: n)
  case 0
  then show ?case by simp
next
  case (Suc k)
  show ?case
  proof (cases "n < 10")
    case True
    then show ?thesis by (subst show_nat.simps) simp
  next
    case False
    with Suc.prems have k: "0 < k" by (cases k) auto
    from Suc.prems have "n div 10 < 10 ^ k"
      by (simp add: less_mult_imp_div_less mult.commute)
    from Suc.IH [OF k this] False show ?thesis
      by (subst show_nat.simps) simp
  qed
qed

lemma length_pad: "0 < k \<Longrightarrow> n < 10 ^ k \<Longrightarrow> length (pad k n) = k"
  using show_nat_length [of k n] by (simp add: pad_def)

lemma show_int_plain: "newline \<notin> set (show_int i)"
  using show_nat_digits plain_digit_props(8)
  by (auto simp: show_int_def newline_def)

lemma report_duration_plain: "newline \<notin> set (report_duration check_in check_out)"
proof (cases check_out)
  case None
  then show ?thesis by (simp add: report_duration_def newline_def)
next
  case (Some out)
  have "newline \<noteq> CHR ''h''" "newline \<noteq> CHR '' ''" "newline \<noteq> CHR ''m''"
    by (simp_all add: newline_def)
  then show ?thesis
    using show_int_plain by (simp add: report_duration_def Let_def Some)
qed

lemma csv_row_of_record_plain:
  assumes "\<forall>x. newline \<notin> set (format_date x)" and "\<forall>t. newline \<notin> set (format_time t)"
  shows "newline \<notin> set (csv_row
           \<lparr>report_id = i, report_date = format_date d, checkInTime = format_time t,
            checkOutTime = map_option format_time out, duration = report_duration t out\<rparr>)"
proof -
  have c: "newline \<noteq> CHR '',''" by (simp add: newline_def)
  have n: "newline \<notin> set ''Not checked out''" by (simp add: newline_def)
  show ?thesis
    using assms c n report_duration_plain [of t out]
    by (cases out) (simp_all add: csv_row_def)
qed

lemma csv_row_generateReport_plain:
  assumes "\<forall>x. newline \<notin> set (format_date x)" and "\<forall>t. newline \<notin> set (format_time t)"
    and "r \<in> set (generateReport format_date format_time records)"
  shows "newline \<notin> set (csv_row r)"
  using assms(3) csv_row_of_record_plain [OF assms(1,2)]
  by (auto simp: generateReport_def simp del: set_ConsD)

text \<open>
  C9. For an empty report \<^verbatim>\<open>downloadCSV\<close> returns without offering a file. For any other
  report it offers a file named \<^verbatim>\<open>attendance_report_\<close>, the current date as
  \<^verbatim>\<open>yyyy-MM-dd\<close> (four, two and two digits) and \<^verbatim>\<open>.csv\<close>, whose content is the header
  line \<^verbatim>\<open>Date,Check In Time,Check Out Time,Duration\<close> followed by one line for each row
  of the report, in order; rows made by \<^verbatim>\<open>generateReport\<close> contain no line feed when
  the formatted dates and times contain none. A row without a check-out time has the
  text \<^verbatim>\<open>Not checked out\<close> in the third column. The function is total: it never
  throws.
\<close>

theorem csv_export_format:
  "downloadCSV today [] = None
   \<and> (reportData \<noteq> [] \<longrightarrow>
        (\<exists>file. downloadCSV today reportData = Some file
           \<and> download_name file = ''attendance_report_'' @ format_yyyy_MM_dd today @ ''.csv''
           \<and> download_content file
               = ''Date,Check In Time,Check Out Time,Duration'' @ [newline]
                 @ join [newline] (map csv_row reportData)
           \<and> ((\<forall>r \<in> set reportData. newline \<notin> set (csv_row r)) \<longrightarrow>
                lines_of (download_content file)
                  = ''Date,Check In Time,Check Out Time,Duration'' # map csv_row reportData)))
   \<and> ((\<forall>x. newline \<notin> set (format_date x)) \<and> (\<forall>t. newline \<notin> set (format_time t)) \<longrightarrow>
        (\<forall>r \<in> set (generateReport format_date format_time records). newline \<notin> set (csv_row r)))
   \<and> (checkOutTime r = None \<longrightarrow>
        csv_row r = report_date r @ '','' @ checkInTime r @ '',Not checked out,'' @ duration r)
   \<and> (y < 10000 \<and> m < 100 \<and> d < 100 \<longrightarrow>
        format_yyyy_MM_dd (y, m, d) = pad 4 y @ ''-'' @ pad 2 m @ ''-'' @ pad 2 d
      \<and> length (pad 4 y) = 4 \<and> length (pad 2 m) = 2 \<and> length (pad 2 d) = 2)"
proof -
  have a: "downloadCSV today [] = None" by (simp add: downloadCSV_def)
  have b: "reportData \<noteq> [] \<longrightarrow>
        (\<exists>file. downloadCSV today reportData = Some file
           \<and> download_name file = ''attendance_report_'' @ format_yyyy_MM_dd today @ ''.csv''
           \<and> download_content file
               = ''Date,Check In Time,Check Out Time,Duration'' @ [newline]
                 @ join [newline] (map csv_row reportData)
           \<and> ((\<forall>r \<in> set reportData. newline \<notin> set (csv_row r)) \<longrightarrow>
                lines_of (download_content file)
                  = ''Date,Check In Time,Check Out Time,Duration'' # map csv_row reportData))"
  proof
    assume ne: "reportData \<noteq> []"
    let ?file = "\<lparr>download_name = ''attendance_report_'' @ format_yyyy_MM_dd today @ ''.csv'',
                  download_type = ''text/csv;charset=utf-8;'',
                  download_content = ''Date,Check In Time,Check Out Time,Duration'' @ [newline]
                    @ join [newline] (map csv_row reportData)\<rparr>"
    have f: "downloadCSV today reportData = Some ?file"
      using ne by (simp add: downloadCSV_def Let_def)
    have l: "lines_of (download_content ?file)
               = ''Date,Check In Time,Check Out Time,Duration'' # map csv_row reportData"
      if "\<forall>r \<in> set reportData. newline \<notin> set (csv_row r)"
    proof -
      have "lines_of (join [newline] (map csv_row reportData)) = map csv_row reportData"
        using ne that by (intro lines_of_join) simp_all
      then have "lines_of (''Date,Check In Time,Check Out Time,Duration''
                   @ newline # join [newline] (map csv_row reportData))
                 = ''Date,Check In Time,Check Out Time,Duration'' # map csv_row reportData"
        by (simp only: lines_of_append [OF header_plain])
      then show ?thesis by simp
    qed
    show "\<exists>file. downloadCSV today reportData = Some file
           \<and> download_name file = ''attendance_report_'' @ format_yyyy_MM_dd today @ ''.csv''
           \<and> download_content file
               = ''Date,Check In Time,Check Out Time,Duration'' @ [newline]
                 @ join [newline] (map csv_row reportData)
           \<and> ((\<forall>r \<in> set reportData. newline \<notin> set (csv_row r)) \<longrightarrow>
                lines_of (download_content file)
                  = ''Date,Check In Time,Check Out Time,Duration'' # map csv_row reportData)"
      using f l by (intro exI [of _ ?file]) simp
  qed
  have c: "(\<forall>x. newline \<notin> set (format_date x)) \<and> (\<forall>t. newline \<notin> set (format_time t)) \<longrightarrow>
        (\<forall>r \<in> set (generateReport format_date format_time records). newline \<notin> set (csv_row r))"
    using csv_row_generateReport_plain by blast
  have d: "checkOutTime r = None \<longrightarrow>
        csv_row r = report_date r @ '','' @ checkInTime r @ '',Not checked out,'' @ duration r"
    by (simp add: csv_row_def)
  have e: "y < 10000 \<and> m < 100 \<and> d < 100 \<longrightarrow>
        format_yyyy_MM_dd (y, m, d) = pad 4 y @ ''-'' @ pad 2 m @ ''-'' @ pad 2 d
      \<and> length (pad 4 y) = 4 \<and> length (pad 2 m) = 2 \<and> length (pad 2 d) = 2"
    using length_pad [of 4 y] length_pad [of 2 m] length_pad [of 2 d]
    by (simp add: format_yyyy_MM_dd_def)
  show ?thesis
    using a b c d e by blast
qed

lemma sum_list_nonneg_int:
  "(\<And>x. x \<in> set xs \<Longrightarrow> 0 \<le> f x) \<Longrightarrow> (0::int) \<le> (\<Sum>x \<leftarrow> xs. f x)"
  by (induction xs) auto

text \<open>
  C10. The total of a report is the sum, over its records with a check-out time, of the
  whole hours of the difference between check-out and check-in: the quotient by the
  length of an hour, truncated, so that the minutes left over are dropped; records in
  progress add nothing. The average is the number 0 for a report without rows.
  Otherwise it is the text of a number with one decimal which differs from the total
  divided by the number of rows by at most one twentieth, that is, the quotient rounded
  to one decimal place. The quotient is the double that JavaScript computes; the bound
  on the total keeps its rounding error below the distance to the next rounding
  boundary.
\<close>

theorem summary_counts_whole_hours:
  "totalHours (generateReport format_date format_time records)
     = Some (\<Sum>r \<leftarrow> records.
               case check_out_time r of
                 None \<Rightarrow> 0
               | Some out \<Rightarrow> trunc_div (out - check_in_time r) 3600000)
   \<and> (check_in \<le> out \<longrightarrow>
        3600000 * trunc_div (out - check_in) 3600000 \<le> out - check_in
      \<and> out - check_in < 3600000 * trunc_div (out - check_in) 3600000 + 3600000)
   \<and> averageHoursPerDay (generateReport format_date format_time []) = Number 0
   \<and> (records \<noteq> []
        \<and> (\<forall>r \<in> set records. \<forall>t. check_out_time r = Some t \<longrightarrow> check_in_time r \<le> t)
        \<and> totalHours (generateReport format_date format_time records) = Some hours
        \<and> 20 * hours < 2 ^ 53 \<longrightarrow>
        (\<exists>n. averageHoursPerDay (generateReport format_date format_time records)
                = Fixed (show_nat (n div 10) @ ''.'' @ [digit_char (n mod 10)])
           \<and> \<bar>of_nat n / 10 - of_int hours / of_nat (length records)\<bar> \<le> (1 / 20 :: rat)))"
proof -
  have a: "totalHours (generateReport format_date format_time records)
     = Some (\<Sum>r \<leftarrow> records.
               case check_out_time r of
                 None \<Rightarrow> 0
               | Some out \<Rightarrow> trunc_div (out - check_in_time r) 3600000)"
    by (simp add: totalHours_generateReport differenceInHours_def cong: option.case_cong)
  have b: "check_in \<le> out \<longrightarrow>
        3600000 * trunc_div (out - check_in) 3600000 \<le> out - check_in
      \<and> out - check_in < 3600000 * trunc_div (out - check_in) 3600000 + 3600000"
  proof
    assume "check_in \<le> out"
    then have "trunc_div (out - check_in) 3600000 = (out - check_in) div 3600000"
      by (simp add: trunc_div_nonneg)
    moreover have "3600000 * ((out - check_in) div 3600000) + (out - check_in) mod 3600000
                     = out - check_in"
      by (rule mult_div_mod_eq)
    moreover have "0 \<le> (out - check_in) mod 3600000" "(out - check_in) mod 3600000 < 3600000"
      by simp_all
    ultimately show "3600000 * trunc_div (out - check_in) 3600000 \<le> out - check_in
      \<and> out - check_in < 3600000 * trunc_div (out - check_in) 3600000 + 3600000"
      by linarith
  qed
  have c: "averageHoursPerDay (generateReport format_date format_time []) = Number 0"
    by (simp add: averageHoursPerDay_def generateReport_def)
  have d: "records \<noteq> []
        \<and> (\<forall>r \<in> set records. \<forall>t. check_out_time r = Some t \<longrightarrow> check_in_time r \<le> t)
        \<and> totalHours (generateReport format_date format_time records) = Some hours
        \<and> 20 * hours < 2 ^ 53 \<longrightarrow>
        (\<exists>n. averageHoursPerDay (generateReport format_date format_time records)
                = Fixed (show_nat (n div 10) @ ''.'' @ [digit_char (n mod 10)])
           \<and> \<bar>of_nat n / 10 - of_int hours / of_nat (length records)\<bar> \<le> (1 / 20 :: rat))"
  proof
    assume h: "records \<noteq> []
        \<and> (\<forall>r \<in> set records. \<forall>t. check_out_time r = Some t \<longrightarrow> check_in_time r \<le> t)
        \<and> totalHours (generateReport format_date format_time records) = Some hours
        \<and> 20 * hours < 2 ^ 53"
    then have len: "0 < length records" by simp
    from h a have hs: "hours = (\<Sum>r \<leftarrow> records.
               case check_out_time r of
                 None \<Rightarrow> 0
               | Some out \<Rightarrow> trunc_div (out - check_in_time r) 3600000)"
      by simp
    have "0 \<le> (\<Sum>r \<leftarrow> records.
               case check_out_time r of
                 None \<Rightarrow> 0
               | Some out \<Rightarrow> trunc_div (out - check_in_time r) 3600000)"
    proof (rule sum_list_nonneg_int)
      fix r assume r: "r \<in> set records"
      show "0 \<le> (case check_out_time r of
                 None \<Rightarrow> 0
               | Some out \<Rightarrow> trunc_div (out - check_in_time r) 3600000)"
      proof (cases "check_out_time r")
        case None
        then show ?thesis by simp
      next
        case (Some t)
        with h r have "check_in_time r \<le> t" by blast
        then have "0 \<le> trunc_div (t - check_in_time r) 3600000"
          by (simp add: trunc_div_nonneg pos_imp_zdiv_nonneg_iff)
        with Some show ?thesis by simp
      qed
    qed
    with hs have h0: "0 \<le> hours" by simp
    from h have small: "20 * hours < 2 ^ 53" by simp
    have avg: "averageHoursPerDay (generateReport format_date format_time records)
               = Fixed (toFixed1 (to_double (of_int hours / of_nat (length records))))"
      using h len by (simp add: averageHoursPerDay_def Let_def length_generateReport)
    from toFixed1_rounds [OF h0 len small] avg
    show "\<exists>n. averageHoursPerDay (generateReport format_date format_time records)
                = Fixed (show_nat (n div 10) @ ''.'' @ [digit_char (n mod 10)])
           \<and> \<bar>of_nat n / 10 - of_int hours / of_nat (length records)\<bar> \<le> (1 / 20 :: rat)"
      by auto
  qed
  show ?thesis
    using a b c d by blast
qed

lemma week_hours:
  "(\<Sum>r \<leftarrow> week. case check_out_time r of None \<Rightarrow> 0
                  | Some out \<Rightarrow> trunc_div (out - check_in_time r) 3600000) = 11"
  by (simp add: week_def evening_def morning_def eight_def seventeen_def trunc_div_def)

lemma week_fixed: "toFixed1 (to_double (11 / 3)) = ''3.7''"
  by code_simp

theorem summary_counts_whole_hours_witness:
  "week \<noteq> []
   \<and> list_all (\<lambda>r. case check_out_time r of None \<Rightarrow> True | Some t \<Rightarrow> check_in_time r \<le> t) week
   \<and> totalHours (generateReport (\<lambda>d. ''2024-01-02'') show_int week) = Some 11
   \<and> 20 * (11::int) < 2 ^ 53
   \<and> averageHoursPerDay (generateReport (\<lambda>d. ''2024-01-02'') show_int week) = Fixed ''3.7''
   \<and> (\<exists>n. averageHoursPerDay (generateReport (\<lambda>d. ''2024-01-02'') show_int week)
              = Fixed (show_nat (n div 10) @ ''.'' @ [digit_char (n mod 10)])
         \<and> \<bar>of_nat n / 10 - of_int 11 / of_nat (length week)\<bar> \<le> (1 / 20 :: rat))
   \<and> eight \<le> eight + 9900000
   \<and> trunc_div (eight + 9900000 - eight) 3600000 = 2"
proof -
  note t = summary_counts_whole_hours [where records = week and format_date = "\<lambda>d. ''2024-01-02''"
      and format_time = show_int and hours = 11 and check_in = eight and out = "eight + 9900000"]
  have ne: "week \<noteq> []" by (simp add: week_def)
  have inv: "\<forall>r \<in> set week. \<forall>t. check_out_time r = Some t \<longrightarrow> check_in_time r \<le> t"
    by (simp add: week_def evening_def morning_def eight_def seventeen_def)
  have tot: "totalHours (generateReport (\<lambda>d. ''2024-01-02'') show_int week) = Some 11"
    using t week_hours by simp
  have small: "20 * (11::int) < 2 ^ 53" by simp
  have len: "length week = 3" by (simp add: week_def)
  have avg: "averageHoursPerDay (generateReport (\<lambda>d. ''2024-01-02'') show_int week) = Fixed ''3.7''"
    using tot week_fixed by (simp add: averageHoursPerDay_def Let_def length_generateReport len)
  have ex: "\<exists>n. averageHoursPerDay (generateReport (\<lambda>d. ''2024-01-02'') show_int week)
              = Fixed (show_nat (n div 10) @ ''.'' @ [digit_char (n mod 10)])
         \<and> \<bar>of_nat n / 10 - of_int 11 / of_nat (length week)\<bar> \<le> (1 / 20 :: rat)"
    using t ne inv tot small by blast
  have tr: "trunc_div (eight + 9900000 - eight) 3600000 = 2"
    by (simp add: trunc_div_def)
  have inv': "list_all (\<lambda>r. case check_out_time r of None \<Rightarrow> True | Some t \<Rightarrow> check_in_time r \<le> t) week"
    by (simp add: week_def evening_def morning_def eight_def seventeen_def)
  show ?thesis
    using ne inv' tot small avg ex tr by simp
qed

theorem csv_export_format_witness:
  "january_report \<noteq> []
   \<and> list_all (\<lambda>r. newline \<notin> set (csv_row r)) january_report
   \<and> downloadCSV (2024, 2, 15) january_report
       = Some \<lparr>download_name = ''attendance_report_2024-02-15.csv'',
               download_type = ''text/csv;charset=utf-8;'',
               download_content =
                 ''Date,Check In Time,Check Out Time,Duration'' @ [newline]
                 @ ''2024-01-02,08:00:00,17:00:00,9h 0m'' @ [newline]
                 @ ''2024-01-04,08:00:00,Not checked out,In progress''\<rparr>
   \<and> (\<exists>file. downloadCSV (2024, 2, 15) january_report = Some file
         \<and> lines_of (download_content file)
             = [''Date,Check In Time,Check Out Time,Duration'',
                ''2024-01-02,08:00:00,17:00:00,9h 0m'',
                ''2024-01-04,08:00:00,Not checked out,In progress''])
   \<and> (\<forall>x. newline \<notin> set ((\<lambda>d. ''2024-01-02'') x)) \<and> (\<forall>t. newline \<notin> set (show_int t))
   \<and> list_all (\<lambda>r. newline \<notin> set (csv_row r)) (generateReport (\<lambda>d. ''2024-01-02'') show_int week)
   \<and> (2024::nat) < 10000 \<and> (2::nat) < 100 \<and> (15::nat) < 100
   \<and> format_yyyy_MM_dd (2024, 2, 15) = ''2024-02-15''"
proof -
  note t = csv_export_format [where today = "(2024, 2, 15)" and reportData = january_report
      and format_date = "\<lambda>d. ''2024-01-02''" and format_time = show_int and records = week
      and y = 2024 and m = 2 and d = 15
      and r = "\<lparr>report_id = ''r4'', report_date = ''2024-01-04'', checkInTime = ''08:00:00'',
                 checkOutTime = None, duration = ''In progress''\<rparr>"]
  have ne: "january_report \<noteq> []" by (simp add: january_report_def)
  have rows: "map csv_row january_report
              = [''2024-01-02,08:00:00,17:00:00,9h 0m'',
                 ''2024-01-04,08:00:00,Not checked out,In progress'']"
    by (simp add: january_report_def csv_row_def)
  have plain: "\<forall>r \<in> set january_report. newline \<notin> set (csv_row r)"
    by (simp add: january_report_def csv_row_def newline_def)
  have fmt: "format_yyyy_MM_dd (2024, 2, 15) = ''2024-02-15''"
    by code_simp
  have f1: "\<forall>x. newline \<notin> set ((\<lambda>d. ''2024-01-02'') x)" by (simp add: newline_def)
  have f2: "\<forall>t. newline \<notin> set (show_int t)" by (simp add: show_int_plain)
  have dl: "downloadCSV (2024, 2, 15) january_report
       = Some \<lparr>download_name = ''attendance_report_2024-02-15.csv'',
               download_type = ''text/csv;charset=utf-8;'',
               download_content =
                 ''Date,Check In Time,Check Out Time,Duration'' @ [newline]
                 @ ''2024-01-02,08:00:00,17:00:00,9h 0m'' @ [newline]
                 @ ''2024-01-04,08:00:00,Not checked out,In progress''\<rparr>"
    using ne by (simp add: downloadCSV_def Let_def rows fmt)
  have ex: "\<exists>file. downloadCSV (2024, 2, 15) january_report = Some file
         \<and> lines_of (download_content file)
             = [''Date,Check In Time,Check Out Time,Duration'',
                ''2024-01-02,08:00:00,17:00:00,9h 0m'',
                ''2024-01-04,08:00:00,Not checked out,In progress'']"
    using t ne plain rows by auto
  have gen: "\<forall>r \<in> set (generateReport (\<lambda>d. ''2024-01-02'') show_int week). newline \<notin> set (csv_row r)"
    using t f1 f2 by blast
  show ?thesis
    using ne plain dl ex f1 f2 gen fmt by (simp add: list_all_iff)
qed

end

